theory Spec2Isabelle
  imports Complex_Main
begin

section \<open>JavaScript numbers\<close>

text \<open>
  The portfolio engine computes on JavaScript numbers. The model keeps the special values
  that decide the control flow of the code (\<open>NaN\<close>, \<open>Infinity\<close>, \<open>-Infinity\<close>) and takes
  a finite number as the real number it denotes: finite arithmetic is exact, so rounding
  and overflow of doubles are outside this model (the volatility, where rounding decides a
  claim, is modelled a second time in double precision below). The sign of a zero is not modelled either:
  every zero is \<open>+0\<close>, which is what the computed denominators of the code are when they
  are zero (array lengths, \<open>m - 1\<close>, \<open>numPoints - 1\<close>, square roots, and sums accumulated
  from the literal \<open>0\<close>); the remaining denominators are prices, which the data model takes
  positive.
\<close>

datatype jsnum = Num real | PosInf | NegInf | NaN

fun jadd :: "jsnum \<Rightarrow> jsnum \<Rightarrow> jsnum" where
  "jadd (Num x) (Num y) = Num (x + y)"
| "jadd (Num x) PosInf = PosInf"
| "jadd (Num x) NegInf = NegInf"
| "jadd PosInf (Num y) = PosInf"
| "jadd PosInf PosInf = PosInf"
| "jadd PosInf NegInf = NaN"
| "jadd NegInf (Num y) = NegInf"
| "jadd NegInf PosInf = NaN"
| "jadd NegInf NegInf = NegInf"
| "jadd NaN b = NaN"
| "jadd a NaN = NaN"

fun jneg :: "jsnum \<Rightarrow> jsnum" where
  "jneg (Num x) = Num (- x)"
| "jneg PosInf = NegInf"
| "jneg NegInf = PosInf"
| "jneg NaN = NaN"

definition jsub :: "jsnum \<Rightarrow> jsnum \<Rightarrow> jsnum" where
  "jsub a b = jadd a (jneg b)"

definition infOfSign :: "real \<Rightarrow> jsnum" where
  "infOfSign x = (if x = 0 then NaN else if 0 < x then PosInf else NegInf)"

fun jmul :: "jsnum \<Rightarrow> jsnum \<Rightarrow> jsnum" where
  "jmul (Num x) (Num y) = Num (x * y)"
| "jmul (Num x) PosInf = infOfSign x"
| "jmul (Num x) NegInf = infOfSign (- x)"
| "jmul PosInf (Num y) = infOfSign y"
| "jmul PosInf PosInf = PosInf"
| "jmul PosInf NegInf = NegInf"
| "jmul NegInf (Num y) = infOfSign (- y)"
| "jmul NegInf PosInf = NegInf"
| "jmul NegInf NegInf = PosInf"
| "jmul NaN b = NaN"
| "jmul a NaN = NaN"

fun jdiv :: "jsnum \<Rightarrow> jsnum \<Rightarrow> jsnum" where
  "jdiv (Num x) (Num y) = (if y = 0 then infOfSign x else Num (x / y))"
| "jdiv (Num x) PosInf = Num 0"
| "jdiv (Num x) NegInf = Num 0"
| "jdiv PosInf (Num y) = (if 0 \<le> y then PosInf else NegInf)"
| "jdiv NegInf (Num y) = (if 0 \<le> y then NegInf else PosInf)"
| "jdiv PosInf PosInf = NaN"
| "jdiv PosInf NegInf = NaN"
| "jdiv NegInf PosInf = NaN"
| "jdiv NegInf NegInf = NaN"
| "jdiv NaN b = NaN"
| "jdiv a NaN = NaN"

fun jsqrt :: "jsnum \<Rightarrow> jsnum" where
  "jsqrt (Num x) = (if x < 0 then NaN else Num (sqrt x))"
| "jsqrt PosInf = PosInf"
| "jsqrt NegInf = NaN"
| "jsqrt NaN = NaN"

fun jabs :: "jsnum \<Rightarrow> jsnum" where
  "jabs (Num x) = Num \<bar>x\<bar>"
| "jabs PosInf = PosInf"
| "jabs NegInf = PosInf"
| "jabs NaN = NaN"

text \<open>Comparison \<open>a < b\<close>: false as soon as one side is \<open>NaN\<close>.\<close>

fun jlt :: "jsnum \<Rightarrow> jsnum \<Rightarrow> bool" where
  "jlt (Num x) (Num y) = (x < y)"
| "jlt (Num x) PosInf = True"
| "jlt NegInf (Num y) = True"
| "jlt NegInf PosInf = True"
| "jlt a b = False"

definition jgt :: "jsnum \<Rightarrow> jsnum \<Rightarrow> bool" where
  "jgt a b = jlt b a"

text \<open>
  Reading \<open>xs[i]\<close> from a number array: past the end the value is \<open>undefined\<close>, which
  every arithmetic operator and comparison of the code converts to \<open>NaN\<close>.
\<close>

definition rd :: "jsnum list \<Rightarrow> nat \<Rightarrow> jsnum" where
  "rd xs i = (if i < length xs then xs ! i else NaN)"

text \<open>\<open>xs.reduce((sum, x) => sum + x, 0)\<close>\<close>

definition sumJs :: "jsnum list \<Rightarrow> jsnum" where
  "sumJs xs = foldl jadd (Num 0) xs"

section \<open>Data model\<close>

record Asset =
  symbol :: string
  name :: string
  prices :: "jsnum list"
  returns :: "jsnum list"
  weight :: "jsnum option"

record PortfolioMetrics =
  expectedReturn :: jsnum
  volatility :: jsnum
  sharpeRatio :: jsnum
  beta :: jsnum
  var95 :: jsnum
  maxDrawdown :: jsnum
  weights :: "jsnum list"

record EfficientFrontierPoint =
  fp_return :: jsnum
  fp_volatility :: jsnum
  fp_sharpeRatio :: jsnum
  fp_weights :: "jsnum list"

text \<open>
  The only failure of the code is the \<open>TypeError\<close> that JavaScript raises when a property
  is read from \<open>undefined\<close> (\<open>returns[0].length\<close> on an empty array, \<open>covMatrix[i][j]\<close>
  with \<open>i\<close> past the end).
\<close>

datatype error = TypeError

section \<open>Returns\<close>

definition calculateReturns :: "jsnum list \<Rightarrow> jsnum list" where
  "calculateReturns ps =
     map (\<lambda>i. jdiv (jsub (rd ps i) (rd ps (i - 1))) (rd ps (i - 1))) [1..<length ps]"

section \<open>Loops that can throw\<close>

text \<open>
  A \<open>for\<close> loop over the indices \<open>is\<close> whose body may throw: the loop stops at the first
  error, as the exception does.
\<close>

fun forLoop :: "nat list \<Rightarrow> (nat \<Rightarrow> 's \<Rightarrow> error + 's) \<Rightarrow> 's \<Rightarrow> error + 's" where
  "forLoop [] body s = Inr s"
| "forLoop (i # is) body s =
     (case body i s of Inl e \<Rightarrow> Inl e | Inr s' \<Rightarrow> forLoop is body s')"

text \<open>
  Reading the row \<open>xss[i]\<close> of an array of arrays in order to index it: past the end the
  row is \<open>undefined\<close> and indexing it throws.
\<close>

definition row :: "'a list list \<Rightarrow> nat \<Rightarrow> error + 'a list" where
  "row xss i = (if i < length xss then Inr (xss ! i) else Inl TypeError)"

section \<open>Covariance matrix\<close>

definition calculateCovarianceMatrix :: "jsnum list list \<Rightarrow> error + jsnum list list" where
  "calculateCovarianceMatrix rets =
     (case rets of
        [] \<Rightarrow> Inl TypeError
      | r0 # _ \<Rightarrow>
          let n = length rets;
              m = length r0;
              means = map (\<lambda>assetReturns.
                        jdiv (sumJs assetReturns) (Num (real (length assetReturns)))) rets
          in Inr (map (\<lambda>i. map (\<lambda>j.
                jmul (jdiv (foldl (\<lambda>covariance k.
                              jadd covariance
                                (jmul (jsub (rd (rets ! i) k) (rd means i))
                                      (jsub (rd (rets ! j) k) (rd means j))))
                            (Num 0) [0..<m])
                        (Num (real m - 1)))
                     (Num 252)) [0..<n]) [0..<n]))"

section \<open>Portfolio metrics\<close>

definition calculatePortfolioReturns ::
  "jsnum list list \<Rightarrow> jsnum list \<Rightarrow> error + jsnum list" where
  "calculatePortfolioReturns rets ws =
     (case rets of
        [] \<Rightarrow> Inl TypeError
      | r0 # _ \<Rightarrow>
          forLoop [0..<length r0]
            (\<lambda>i portfolioReturns.
               case forLoop [0..<length ws]
                      (\<lambda>j periodReturn.
                         case row rets j of
                           Inl e \<Rightarrow> Inl e
                         | Inr rj \<Rightarrow> Inr (jadd periodReturn (jmul (rd ws j) (rd rj i))))
                      (Num 0) of
                 Inl e \<Rightarrow> Inl e
               | Inr periodReturn \<Rightarrow> Inr (portfolioReturns @ [periodReturn]))
            [])"

definition calculateBeta :: "jsnum list \<Rightarrow> jsnum list \<Rightarrow> jsnum" where
  "calculateBeta portfolioReturns marketReturns =
     (let portfolioMean = jdiv (sumJs portfolioReturns) (Num (real (length portfolioReturns)));
          marketMean = jdiv (sumJs marketReturns) (Num (real (length marketReturns)));
          (covariance, marketVariance) =
             foldl (\<lambda>(covariance, marketVariance) i.
                      let portfolioDeviation = jsub (rd portfolioReturns i) portfolioMean;
                          marketDeviation = jsub (rd marketReturns i) marketMean
                      in (jadd covariance (jmul portfolioDeviation marketDeviation),
                          jadd marketVariance (jmul marketDeviation marketDeviation)))
                   (Num 0, Num 0) [0..<length portfolioReturns]
      in jdiv covariance marketVariance)"

text \<open>The drawdown loop over the portfolio values, from index 1, with state \<open>(maxDrawdown, peak)\<close>.\<close>

definition drawdownStep :: "jsnum list \<Rightarrow> jsnum \<times> jsnum \<Rightarrow> nat \<Rightarrow> jsnum \<times> jsnum" where
  "drawdownStep portfolioValues s i =
     (case s of (maxDD, peak) \<Rightarrow>
        let peak' = (if jgt (rd portfolioValues i) peak then rd portfolioValues i else peak);
            drawdown = jdiv (jsub peak' (rd portfolioValues i)) peak'
        in (if jgt drawdown maxDD then drawdown else maxDD, peak'))"

definition calculateMaxDrawdown :: "Asset list \<Rightarrow> jsnum list \<Rightarrow> error + jsnum" where
  "calculateMaxDrawdown assets ws =
     (case assets of
        [] \<Rightarrow> Inl TypeError
      | a0 # _ \<Rightarrow>
          let numPeriods = length (prices a0);
              portfolioValues =
                map (\<lambda>i. foldl (\<lambda>portfolioValue j.
                                   jadd portfolioValue
                                     (jmul (rd ws j) (rd (prices (assets ! j)) i)))
                                (Num 0) [0..<length assets])
                    [0..<numPeriods]
          in Inr (fst (foldl (drawdownStep portfolioValues)
                         (Num 0, rd portfolioValues 0) [1..<length portfolioValues])))"

definition portfolioVariance :: "jsnum list \<Rightarrow> jsnum list list \<Rightarrow> error + jsnum" where
  "portfolioVariance ws covMatrix =
     forLoop [0..<length ws]
       (\<lambda>i. forLoop [0..<length ws]
          (\<lambda>j pv. case row covMatrix i of
                     Inl e \<Rightarrow> Inl e
                   | Inr ci \<Rightarrow> Inr (jadd pv (jmul (jmul (rd ws i) (rd ws j)) (rd ci j)))))
       (Num 0)"

definition calculatePortfolioMetrics ::
  "Asset list \<Rightarrow> jsnum list \<Rightarrow> jsnum list \<Rightarrow> error + PortfolioMetrics" where
  "calculatePortfolioMetrics assets ws marketReturns =
     (let rets = map returns assets;
          meanReturns = map (\<lambda>assetReturns.
              jmul (jdiv (sumJs assetReturns) (Num (real (length assetReturns)))) (Num 252)) rets
      in case calculateCovarianceMatrix rets of
           Inl e \<Rightarrow> Inl e
         | Inr covMatrix \<Rightarrow>
     (let expRet = foldl (\<lambda>sum i. jadd sum (jmul (rd ws i) (rd meanReturns i)))
                     (Num 0) [0..<length ws]
      in case portfolioVariance ws covMatrix of
           Inl e \<Rightarrow> Inl e
         | Inr pvar \<Rightarrow>
     (let vol = jsqrt pvar;
          riskFreeRate = Num (2 / 100);
          sharpe = jdiv (jsub expRet riskFreeRate) vol
      in case calculatePortfolioReturns rets ws of
           Inl e \<Rightarrow> Inl e
         | Inr portfolioReturns \<Rightarrow>
     (let b = calculateBeta portfolioReturns marketReturns;
          v95 = jdiv (jmul (Num (- 1645 / 1000)) vol) (jsqrt (Num 252))
      in case calculateMaxDrawdown assets ws of
           Inl e \<Rightarrow> Inl e
         | Inr mdd \<Rightarrow>
             Inr \<lparr>expectedReturn = expRet, volatility = vol, sharpeRatio = sharpe,
                  beta = b, var95 = v95, maxDrawdown = mdd, weights = ws\<rparr>))))"

section \<open>Random search\<close>

text \<open>
  \<open>Math.random()\<close> is a stream \<open>rnd\<close> of numbers and a counter of the draws made so far:
  the \<open>k\<close>-th call returns \<open>rnd k\<close>. The weight vector of a candidate takes \<open>numAssets\<close>
  draws and divides each by their sum; the function returns it with the new counter.
\<close>

definition normalizedWeights :: "(nat \<Rightarrow> real) \<Rightarrow> nat \<Rightarrow> nat \<Rightarrow> jsnum list \<times> nat" where
  "normalizedWeights rnd numAssets k =
     (let ws = map (\<lambda>i. Num (rnd (k + i))) [0..<numAssets];
          sum = foldl jadd (Num 0) ws
      in (map (\<lambda>w. jdiv w sum) ws, k + numAssets))"

text \<open>\<open>assets[0].returns\<close>, evaluated as an argument: it throws on an empty asset list.\<close>

definition firstReturns :: "Asset list \<Rightarrow> error + jsnum list" where
  "firstReturns assets = (case assets of [] \<Rightarrow> Inl TypeError | a0 # _ \<Rightarrow> Inr (returns a0))"

definition metricsVsFirst :: "Asset list \<Rightarrow> jsnum list \<Rightarrow> error + PortfolioMetrics" where
  "metricsVsFirst assets ws =
     (case firstReturns assets of
        Inl e \<Rightarrow> Inl e
      | Inr market \<Rightarrow> calculatePortfolioMetrics assets ws market)"

text \<open>One iteration of the optimizer, on the state \<open>(bestSharpe, bestWeights, counter)\<close>.\<close>

definition optimizeStep ::
  "(nat \<Rightarrow> real) \<Rightarrow> Asset list \<Rightarrow> nat \<Rightarrow> jsnum \<times> jsnum list \<times> nat
     \<Rightarrow> error + jsnum \<times> jsnum list \<times> nat" where
  "optimizeStep rnd assets iteration s =
     (case s of (bestSharpe, bestWeights, k) \<Rightarrow>
       (case normalizedWeights rnd (length assets) k of (nw, k') \<Rightarrow>
         (case metricsVsFirst assets nw of
            Inl e \<Rightarrow> Inl e
          | Inr metrics \<Rightarrow>
              if jgt (sharpeRatio metrics) bestSharpe
              then Inr (sharpeRatio metrics, nw, k')
              else Inr (bestSharpe, bestWeights, k'))))"

definition optimizePortfolio :: "(nat \<Rightarrow> real) \<Rightarrow> Asset list \<Rightarrow> error + PortfolioMetrics" where
  "optimizePortfolio rnd assets =
     (case forLoop [0..<10000] (optimizeStep rnd assets) (NegInf, [], 0) of
        Inl e \<Rightarrow> Inl e
      | Inr (bestSharpe, bestWeights, k) \<Rightarrow> metricsVsFirst assets bestWeights)"

section \<open>Efficient frontier\<close>

definition targetReturn :: "int \<Rightarrow> nat \<Rightarrow> jsnum" where
  "targetReturn numPoints i =
     jadd (Num (5 / 100))
       (jmul (jdiv (Num (real i)) (Num (real_of_int numPoints - 1))) (Num (25 / 100)))"

text \<open>One iteration of the search for a target, on \<open>(bestVolatility, bestWeights, counter)\<close>.\<close>

definition frontierStep ::
  "(nat \<Rightarrow> real) \<Rightarrow> Asset list \<Rightarrow> jsnum \<Rightarrow> nat \<Rightarrow> jsnum \<times> jsnum list \<times> nat
     \<Rightarrow> error + jsnum \<times> jsnum list \<times> nat" where
  "frontierStep rnd assets target iteration s =
     (case s of (bestVolatility, bestWeights, k) \<Rightarrow>
       (case normalizedWeights rnd (length assets) k of (nw, k') \<Rightarrow>
         (case metricsVsFirst assets nw of
            Inl e \<Rightarrow> Inl e
          | Inr metrics \<Rightarrow>
              if jlt (jabs (jsub (expectedReturn metrics) target)) (Num (1 / 100))
                 \<and> jlt (volatility metrics) bestVolatility
              then Inr (volatility metrics, nw, k')
              else Inr (bestVolatility, bestWeights, k'))))"

text \<open>The body of the outer loop, on \<open>(frontierPoints, counter)\<close>.\<close>

definition frontierPointStep ::
  "(nat \<Rightarrow> real) \<Rightarrow> Asset list \<Rightarrow> int \<Rightarrow> nat \<Rightarrow> EfficientFrontierPoint list \<times> nat
     \<Rightarrow> error + EfficientFrontierPoint list \<times> nat" where
  "frontierPointStep rnd assets numPoints i s =
     (case s of (frontierPoints, k) \<Rightarrow>
       (case forLoop [0..<1000] (frontierStep rnd assets (targetReturn numPoints i))
               (PosInf, [], k) of
          Inl e \<Rightarrow> Inl e
        | Inr (bestVolatility, bestWeights, k') \<Rightarrow>
            if 0 < length bestWeights
            then (case metricsVsFirst assets bestWeights of
                    Inl e \<Rightarrow> Inl e
                  | Inr metrics \<Rightarrow>
                      Inr (frontierPoints @
                            [\<lparr>fp_return = expectedReturn metrics,
                              fp_volatility = volatility metrics,
                              fp_sharpeRatio = sharpeRatio metrics,
                              fp_weights = bestWeights\<rparr>], k'))
            else Inr (frontierPoints, k')))"

text \<open>
  \<open>points.sort((a, b) => a.volatility - b.volatility)\<close>: for a comparator that is a
  consistent order the result is the stable sorted array; the model is the stable insertion
  sort, which moves \<open>x\<close> behind \<open>y\<close> exactly when the comparator is positive (a \<open>NaN\<close>
  comparator value counts as 0).
\<close>

definition compareVolatility :: "EfficientFrontierPoint \<Rightarrow> EfficientFrontierPoint \<Rightarrow> jsnum" where
  "compareVolatility a b = jsub (fp_volatility a) (fp_volatility b)"

fun insertBy :: "('a \<Rightarrow> 'a \<Rightarrow> jsnum) \<Rightarrow> 'a \<Rightarrow> 'a list \<Rightarrow> 'a list" where
  "insertBy cmp x [] = [x]"
| "insertBy cmp x (y # ys) =
     (if jgt (cmp x y) (Num 0) then y # insertBy cmp x ys else x # y # ys)"

definition sortBy :: "('a \<Rightarrow> 'a \<Rightarrow> jsnum) \<Rightarrow> 'a list \<Rightarrow> 'a list" where
  "sortBy cmp xs = foldr (insertBy cmp) xs []"

definition generateEfficientFrontier ::
  "(nat \<Rightarrow> real) \<Rightarrow> Asset list \<Rightarrow> int \<Rightarrow> error + EfficientFrontierPoint list" where
  "generateEfficientFrontier rnd assets numPoints =
     (case forLoop [0..<nat numPoints] (frontierPointStep rnd assets numPoints) ([], 0) of
        Inl e \<Rightarrow> Inl e
      | Inr (frontierPoints, k) \<Rightarrow> Inr (sortBy compareVolatility frontierPoints))"

section \<open>Double precision\<close>

text \<open>
  Where a claim is about rounding, the exact arithmetic above says nothing, and the
  computation is modelled a second time in IEEE 754 double precision: every operation
  returns its exact result rounded to the nearest double, ties to the even mantissa, with
  gradual underflow (the exponent stops at \<open>-1074\<close>) and overflow to infinity (from
  \<open>2^1024 - 2^970\<close> on). \<open>normalise\<close> scales a magnitude to a mantissa in
  \<open>[2^52, 2^53)\<close> or to the smallest exponent; its fuel is enough for every magnitude
  below \<open>2^1024\<close>.
\<close>

fun normalise :: "nat \<Rightarrow> real \<Rightarrow> int \<Rightarrow> real \<times> int" where
  "normalise 0 m e = (m, e)"
| "normalise (Suc fuel) m e =
     (if 2 ^ 53 \<le> m then normalise fuel (m / 2) (e + 1)
      else if m < 2 ^ 52 \<and> - 1074 < e then normalise fuel (2 * m) (e - 1)
      else (m, e))"

definition roundHalfEven :: "real \<Rightarrow> int" where
  "roundHalfEven m =
     (let f = \<lfloor>m\<rfloor>; d = m - real_of_int f
      in if d < 1 / 2 then f else if 1 / 2 < d then f + 1 else if even f then f else f + 1)"

definition pow2 :: "int \<Rightarrow> real" where
  "pow2 e = (if 0 \<le> e then 2 ^ nat e else 1 / 2 ^ nat (- e))"

definition roundDouble :: "real \<Rightarrow> real" where
  "roundDouble x =
     (if x = 0 then 0
      else case normalise 2200 \<bar>x\<bar> 0 of
             (m, e) \<Rightarrow> sgn x * real_of_int (roundHalfEven m) * pow2 e)"

fun fl :: "jsnum \<Rightarrow> jsnum" where
  "fl (Num x) =
     (if 2 ^ 1024 - 2 ^ 970 \<le> \<bar>x\<bar> then (if 0 < x then PosInf else NegInf)
      else Num (roundDouble x))"
| "fl PosInf = PosInf"
| "fl NegInf = NegInf"
| "fl NaN = NaN"

text \<open>The operations of double arithmetic: the exact result, rounded.\<close>

definition dadd :: "jsnum \<Rightarrow> jsnum \<Rightarrow> jsnum" where
  "dadd a b = fl (jadd a b)"

definition dsub :: "jsnum \<Rightarrow> jsnum \<Rightarrow> jsnum" where
  "dsub a b = fl (jsub a b)"

definition dmul :: "jsnum \<Rightarrow> jsnum \<Rightarrow> jsnum" where
  "dmul a b = fl (jmul a b)"

definition ddiv :: "jsnum \<Rightarrow> jsnum \<Rightarrow> jsnum" where
  "ddiv a b = fl (jdiv a b)"

definition dsqrt :: "jsnum \<Rightarrow> jsnum" where
  "dsqrt a = fl (jsqrt a)"

text \<open>The double that a decimal literal of the source text denotes.\<close>

definition jsLiteral :: "real \<Rightarrow> jsnum" where
  "jsLiteral x = fl (Num x)"

section \<open>Volatility in double precision\<close>

text \<open>
  The part of \<open>calculatePortfolioMetrics\<close> that computes the volatility, in double
  arithmetic: the covariance matrix of the return series, the accumulation of the portfolio
  variance, and its square root. Array lengths and \<open>m - 1\<close> are exact.
\<close>

definition calculateCovarianceMatrix_double :: "jsnum list list \<Rightarrow> error + jsnum list list" where
  "calculateCovarianceMatrix_double rets =
     (case rets of
        [] \<Rightarrow> Inl TypeError
      | r0 # _ \<Rightarrow>
          let n = length rets;
              m = length r0;
              means = map (\<lambda>assetReturns.
                        ddiv (foldl dadd (Num 0) assetReturns)
                             (Num (real (length assetReturns)))) rets
          in Inr (map (\<lambda>i. map (\<lambda>j.
                dmul (ddiv (foldl (\<lambda>covariance k.
                              dadd covariance
                                (dmul (dsub (rd (rets ! i) k) (rd means i))
                                      (dsub (rd (rets ! j) k) (rd means j))))
                            (Num 0) [0..<m])
                        (Num (real m - 1)))
                     (Num 252)) [0..<n]) [0..<n]))"

definition portfolioVariance_double :: "jsnum list \<Rightarrow> jsnum list list \<Rightarrow> error + jsnum" where
  "portfolioVariance_double ws covMatrix =
     forLoop [0..<length ws]
       (\<lambda>i. forLoop [0..<length ws]
          (\<lambda>j pv. case row covMatrix i of
                     Inl e \<Rightarrow> Inl e
                   | Inr ci \<Rightarrow> Inr (dadd pv (dmul (dmul (rd ws i) (rd ws j)) (rd ci j)))))
       (Num 0)"

definition variance_double :: "Asset list \<Rightarrow> jsnum list \<Rightarrow> error + jsnum" where
  "variance_double assets ws =
     (case calculateCovarianceMatrix_double (map returns assets) of
        Inl e \<Rightarrow> Inl e
      | Inr covMatrix \<Rightarrow> portfolioVariance_double ws covMatrix)"

definition volatility_double :: "Asset list \<Rightarrow> jsnum list \<Rightarrow> error + jsnum" where
  "volatility_double assets ws =
     (case variance_double assets ws of
        Inl e \<Rightarrow> Inl e
      | Inr pv \<Rightarrow> Inr (dsqrt pv))"

section \<open>Auxiliary definitions for the proofs\<close>

text \<open>The inner loop of the portfolio variance, for a row that exists.\<close>

definition pvInner :: "jsnum list \<Rightarrow> jsnum list list \<Rightarrow> nat \<Rightarrow> jsnum \<Rightarrow> jsnum" where
  "pvInner ws M i pv =
     foldl (\<lambda>pv j. jadd pv (jmul (jmul (rd ws i) (rd ws j)) (rd (M ! i) j))) pv [0..<length ws]"

text \<open>Comparison \<open>a <= b\<close>, false as soon as one side is \<open>NaN\<close>.\<close>

fun jle :: "jsnum \<Rightarrow> jsnum \<Rightarrow> bool" where
  "jle (Num x) (Num y) = (x \<le> y)"
| "jle (Num x) PosInf = True"
| "jle NegInf (Num y) = True"
| "jle NegInf PosInf = True"
| "jle PosInf PosInf = True"
| "jle NegInf NegInf = True"
| "jle a b = False"

text \<open>
  The drawdown as the specification words it: the value of the portfolio at \<open>t\<close> is the
  weighted sum of the prices at \<open>t\<close>, the running peak at \<open>t\<close> is the largest value up
  to \<open>t\<close>, and the maximum drawdown over \<open>T\<close> periods is the largest
  \<open>(peak - value) / peak\<close>, at least 0.
\<close>

definition portfolioValue_spec :: "real list \<Rightarrow> real list list \<Rightarrow> nat \<Rightarrow> real" where
  "portfolioValue_spec w Ps t = (\<Sum>j<length Ps. w ! j * Ps ! j ! t)"

definition runningPeak_spec :: "(nat \<Rightarrow> real) \<Rightarrow> nat \<Rightarrow> real" where
  "runningPeak_spec v t = Max (v ` {..t})"

definition maxDrawdown_spec :: "(nat \<Rightarrow> real) \<Rightarrow> nat \<Rightarrow> real" where
  "maxDrawdown_spec v T =
     Max (insert 0 ((\<lambda>t. (runningPeak_spec v t - v t) / runningPeak_spec v t) ` {1..<T}))"

text \<open>
  The covariance as the specification words it: the mean of a series, the unbiased sample
  covariance of two series (sum of the products of the deviations from the means, divided
  by \<open>m - 1\<close>) and the sample variance of a series.
\<close>

definition mean_spec :: "real list \<Rightarrow> real" where
  "mean_spec xs = sum_list xs / real (length xs)"

definition sampleCovariance_spec :: "real list \<Rightarrow> real list \<Rightarrow> real" where
  "sampleCovariance_spec xs ys =
     (\<Sum>k<length xs. (xs ! k - mean_spec xs) * (ys ! k - mean_spec ys)) / (real (length xs) - 1)"

definition sampleVariance_spec :: "real list \<Rightarrow> real" where
  "sampleVariance_spec xs =
     (\<Sum>k<length xs. (xs ! k - mean_spec xs)\<^sup>2) / (real (length xs) - 1)"

text \<open>The array \<open>meanReturns\<close> and the expected return of \<open>calculatePortfolioMetrics\<close>.\<close>

definition meanReturnsOf :: "Asset list \<Rightarrow> jsnum list" where
  "meanReturnsOf assets =
     map (\<lambda>assetReturns.
            jmul (jdiv (sumJs assetReturns) (Num (real (length assetReturns)))) (Num 252))
         (map returns assets)"

definition expectedReturnOf :: "Asset list \<Rightarrow> jsnum list \<Rightarrow> jsnum" where
  "expectedReturnOf assets ws =
     foldl (\<lambda>sum i. jadd sum (jmul (rd ws i) (rd (meanReturnsOf assets) i)))
       (Num 0) [0..<length ws]"

text \<open>
  The candidates of a random search, by their index: candidate \<open>c\<close> takes the draws
  \<open>c * n, ..., c * n + n - 1\<close>. Its Sharpe ratio, expected return and volatility are those
  of the metrics the search computes for it.
\<close>

definition candidate :: "(nat \<Rightarrow> real) \<Rightarrow> nat \<Rightarrow> nat \<Rightarrow> jsnum list" where
  "candidate rnd n c = fst (normalizedWeights rnd n (c * n))"

definition candidateSharpe :: "(nat \<Rightarrow> real) \<Rightarrow> Asset list \<Rightarrow> nat \<Rightarrow> jsnum" where
  "candidateSharpe rnd assets c =
     (case metricsVsFirst assets (candidate rnd (length assets) c) of
        Inl e \<Rightarrow> NaN
      | Inr m \<Rightarrow> sharpeRatio m)"

text \<open>
  The state of the optimizer after \<open>N\<close> candidates: either no candidate had a Sharpe ratio
  above \<open>-Infinity\<close> and the best weights are still empty, or the best weights are those
  of a candidate that none of the \<open>N\<close> exceeds and that no earlier candidate reaches.
\<close>

definition bestSoFar :: "(nat \<Rightarrow> jsnum) \<Rightarrow> (nat \<Rightarrow> jsnum list) \<Rightarrow> nat \<Rightarrow> jsnum \<Rightarrow> jsnum list \<Rightarrow> bool" where
  "bestSoFar S cand N bs bw \<longleftrightarrow>
     (bs = NegInf \<and> bw = [] \<and> (\<forall>c<N. \<not> jgt (S c) NegInf)) \<or>
     (\<exists>c<N. bs = S c \<and> bw = cand c \<and> jgt (S c) NegInf \<and>
            (\<forall>c'<N. \<not> jgt (S c') (S c)) \<and> (\<forall>c'<c. \<not> jle (S c) (S c')))"

text \<open>The random stream all of whose draws are \<open>x\<close>.\<close>

definition constantStream :: "real \<Rightarrow> nat \<Rightarrow> real" where
  "constantStream x i = x"

definition candidateReturn :: "(nat \<Rightarrow> real) \<Rightarrow> Asset list \<Rightarrow> nat \<Rightarrow> jsnum" where
  "candidateReturn rnd assets c =
     (case metricsVsFirst assets (candidate rnd (length assets) c) of
        Inl e \<Rightarrow> NaN
      | Inr m \<Rightarrow> expectedReturn m)"

definition candidateVolatility :: "(nat \<Rightarrow> real) \<Rightarrow> Asset list \<Rightarrow> nat \<Rightarrow> jsnum" where
  "candidateVolatility rnd assets c =
     (case metricsVsFirst assets (candidate rnd (length assets) c) of
        Inl e \<Rightarrow> NaN
      | Inr m \<Rightarrow> volatility m)"

text \<open>
  The frontier search accepts a candidate for a target when its expected return is within
  0.01 of the target and its volatility is below \<open>Infinity\<close>; a target has a candidate
  when one of its 1000 candidates is accepted.
\<close>

definition accepts :: "(nat \<Rightarrow> real) \<Rightarrow> Asset list \<Rightarrow> jsnum \<Rightarrow> nat \<Rightarrow> bool" where
  "accepts rnd assets target c \<longleftrightarrow>
     jlt (jabs (jsub (candidateReturn rnd assets c) target)) (Num (1 / 100)) \<and>
     jlt (candidateVolatility rnd assets c) PosInf"

definition frontierPointOf :: "Asset list \<Rightarrow> jsnum list \<Rightarrow> EfficientFrontierPoint" where
  "frontierPointOf assets ws =
     (case metricsVsFirst assets ws of
        Inl e \<Rightarrow> \<lparr>fp_return = NaN, fp_volatility = NaN, fp_sharpeRatio = NaN, fp_weights = ws\<rparr>
      | Inr m \<Rightarrow> \<lparr>fp_return = expectedReturn m, fp_volatility = volatility m,
                   fp_sharpeRatio = sharpeRatio m, fp_weights = ws\<rparr>)"

definition searchState ::
  "(nat \<Rightarrow> real) \<Rightarrow> Asset list \<Rightarrow> jsnum \<Rightarrow> nat \<Rightarrow> nat \<Rightarrow> jsnum \<Rightarrow> jsnum list \<Rightarrow> bool" where
  "searchState rnd assets target c0 j bv bw \<longleftrightarrow>
     (bv = PosInf \<and> bw = [] \<and> (\<forall>j'<j. \<not> accepts rnd assets target (c0 + j'))) \<or>
     (\<exists>j'<j. accepts rnd assets target (c0 + j') \<and>
             bw = candidate rnd (length assets) (c0 + j'))"

definition targetHasCandidate :: "(nat \<Rightarrow> real) \<Rightarrow> Asset list \<Rightarrow> int \<Rightarrow> nat \<Rightarrow> bool" where
  "targetHasCandidate rnd assets numPoints i \<longleftrightarrow>
     (\<exists>j<1000. accepts rnd assets (targetReturn numPoints i) (i * 1000 + j))"

text \<open>The volatility of a frontier point as a real number, when it is finite.\<close>

definition volatilityValue :: "EfficientFrontierPoint \<Rightarrow> real" where
  "volatilityValue p = (case fp_volatility p of Num v \<Rightarrow> v | _ \<Rightarrow> 0)"



section \<open>Basic facts about the number model\<close>

lemma rd_map_Num [simp]: "i < length xs \<Longrightarrow> rd (map Num xs) i = Num (xs ! i)"
  by (simp add: rd_def)

lemma error_is_TypeError [simp]: "(e :: error) = TypeError"
  by (cases e) simp

lemmas metrics_eval = calculatePortfolioMetrics_def calculateCovarianceMatrix_def
  portfolioVariance_def calculatePortfolioReturns_def calculateBeta_def
  calculateMaxDrawdown_def drawdownStep_def sumJs_def rd_def row_def jsub_def jgt_def
  infOfSign_def Let_def

section \<open>Loops\<close>

lemma forLoop_append:
  "forLoop (xs @ ys) body s =
     (case forLoop xs body s of Inl e \<Rightarrow> Inl e | Inr s' \<Rightarrow> forLoop ys body s')"
  by (induction xs arbitrary: s) (auto split: sum.splits)

lemma forLoop_total:
  assumes "\<And>i s. i \<in> set is \<Longrightarrow> body i s = Inr (g i s)"
  shows "forLoop is body s = Inr (foldl (\<lambda>s i. g i s) s is)"
  using assms by (induction "is" arbitrary: s) auto

section \<open>Where the metrics throw\<close>

lemma calculateCovarianceMatrix_length:
  "rets \<noteq> [] \<Longrightarrow> \<exists>M. calculateCovarianceMatrix rets = Inr M \<and> length M = length rets"
  by (cases rets) (simp_all add: calculateCovarianceMatrix_def Let_def)

lemma calculateCovarianceMatrix_Nil: "calculateCovarianceMatrix [] = Inl TypeError"
  by (simp add: calculateCovarianceMatrix_def)

lemma pv_inner_ok:
  assumes "i < length M"
  shows "forLoop js
          (\<lambda>j pv. case row M i of
                     Inl e \<Rightarrow> Inl e
                   | Inr ci \<Rightarrow> Inr (jadd pv (jmul (jmul (rd ws i) (rd ws j)) (rd ci j)))) pv
        = Inr (foldl (\<lambda>pv j. jadd pv (jmul (jmul (rd ws i) (rd ws j)) (rd (M ! i) j))) pv js)"
  by (rule forLoop_total) (simp add: row_def assms)

lemma portfolioVariance_ok:
  assumes "length ws \<le> length M"
  shows "portfolioVariance ws M = Inr (foldl (\<lambda>pv i. pvInner ws M i pv) (Num 0) [0..<length ws])"
  unfolding portfolioVariance_def
  by (rule forLoop_total) (use assms in \<open>simp add: pv_inner_ok pvInner_def\<close>)

lemma pv_inner_fail:
  assumes "\<not> i < length M" "js \<noteq> []"
  shows "forLoop js
          (\<lambda>j pv. case row M i of
                     Inl e \<Rightarrow> Inl e
                   | Inr ci \<Rightarrow> Inr (jadd pv (jmul (jmul (rd ws i) (rd ws j)) (rd ci j)))) pv
        = Inl TypeError"
  using assms by (cases js) (simp_all add: row_def)

lemma portfolioVariance_fail:
  assumes "length M < length ws"
  shows "portfolioVariance ws M = Inl TypeError"
proof -
  have split: "[0..<length ws] = [0..<length M] @ length M # [Suc (length M)..<length ws]"
    using assms by (metis le_add1 less_imp_add_positive upt_add_eq_append upt_conv_Cons add_0)
  have ne: "[0..<length ws] \<noteq> []" using assms by auto
  obtain pv where pv: "forLoop [0..<length M]
       (\<lambda>i. forLoop [0..<length ws]
          (\<lambda>j pv. case row M i of
                     Inl e \<Rightarrow> Inl e
                   | Inr ci \<Rightarrow> Inr (jadd pv (jmul (jmul (rd ws i) (rd ws j)) (rd ci j)))))
       (Num 0) = Inr pv"
    using forLoop_total [of "[0..<length M]" _ "\<lambda>i pv. pvInner ws M i pv" "Num 0"]
    by (simp add: pv_inner_ok pvInner_def)
  have fail: "forLoop [0..<length ws]
          (\<lambda>j pv. case row M (length M) of
                     Inl e \<Rightarrow> Inl e
                   | Inr ci \<Rightarrow>
                       Inr (jadd pv (jmul (jmul (rd ws (length M)) (rd ws j)) (rd ci j)))) pv
        = Inl TypeError"
    by (rule pv_inner_fail) (use ne in simp_all)
  show ?thesis
    unfolding portfolioVariance_def
    by (subst split) (simp add: forLoop_append pv fail del: upt_Suc)
qed

lemma pr_inner_ok:
  assumes "set js \<subseteq> {..<length rets}"
  shows "forLoop js
          (\<lambda>j periodReturn.
               case row rets j of
                 Inl e \<Rightarrow> Inl e
               | Inr rj \<Rightarrow> Inr (jadd periodReturn (jmul (rd ws j) (rd rj i)))) pr
        = Inr (foldl (\<lambda>pr j. jadd pr (jmul (rd ws j) (rd (rets ! j) i))) pr js)"
  by (rule forLoop_total) (use assms in \<open>auto simp: row_def\<close>)

lemma calculatePortfolioReturns_ok:
  assumes "rets \<noteq> []" "length ws \<le> length rets"
  shows "calculatePortfolioReturns rets ws =
     Inr (map (\<lambda>i. foldl (\<lambda>pr j. jadd pr (jmul (rd ws j) (rd (rets ! j) i))) (Num 0)
                  [0..<length ws]) [0..<length (hd rets)])"
proof -
  have inner: "forLoop [0..<length ws]
          (\<lambda>j periodReturn.
               case row rets j of
                 Inl e \<Rightarrow> Inl e
               | Inr rj \<Rightarrow> Inr (jadd periodReturn (jmul (rd ws j) (rd rj i)))) (Num 0)
        = Inr (foldl (\<lambda>pr j. jadd pr (jmul (rd ws j) (rd (rets ! j) i))) (Num 0) [0..<length ws])"
    for i using assms(2) by (intro pr_inner_ok) auto
  have acc: "foldl (\<lambda>s i. s @ [f i]) acc is = acc @ map f is" for f :: "nat \<Rightarrow> jsnum" and acc "is"
    by (induction "is" arbitrary: acc) auto
  obtain r0 rs where r: "rets = r0 # rs" using assms(1) by (cases rets) auto
  show ?thesis
    unfolding calculatePortfolioReturns_def r list.case list.sel
    unfolding r [symmetric] inner
    by (simp add: forLoop_total [where g = "\<lambda>i s. s @ [_ i]"] acc)
qed

lemma calculateMaxDrawdown_ok:
  "assets \<noteq> [] \<Longrightarrow> \<exists>d. calculateMaxDrawdown assets ws = Inr d"
  by (cases assets) (simp_all add: calculateMaxDrawdown_def Let_def)

lemma calculatePortfolioMetrics_fails_iff:
  "calculatePortfolioMetrics assets ws marketReturns = Inl TypeError
     \<longleftrightarrow> assets = [] \<or> length assets < length ws"
proof (cases "assets = []")
  case True
  then show ?thesis
    by (simp add: calculatePortfolioMetrics_def calculateCovarianceMatrix_Nil)
next
  case False
  then obtain M where M: "calculateCovarianceMatrix (map returns assets) = Inr M"
      "length M = length assets"
    using calculateCovarianceMatrix_length [of "map returns assets"] by auto
  show ?thesis
  proof (cases "length assets < length ws")
    case True
    then show ?thesis
      by (simp add: calculatePortfolioMetrics_def M portfolioVariance_fail Let_def)
  next
    case le: False
    obtain d where d: "calculateMaxDrawdown assets ws = Inr d"
      using calculateMaxDrawdown_ok [OF False] by blast
    from le False show ?thesis
      by (simp add: calculatePortfolioMetrics_def M portfolioVariance_ok
          calculatePortfolioReturns_ok d Let_def)
  qed
qed

section \<open>Returns from prices\<close>

text \<open>
  Claim C3. For a price sequence of length at least 2 with strictly positive (finite)
  entries, \<open>calculateReturns\<close> gives a sequence one shorter than the input, its entry
  \<open>i\<close> is \<open>(price[i+1] - price[i]) / price[i]\<close>, and \<open>price[i] * (1 + return[i])\<close> is
  \<open>price[i+1]\<close> again (exactly, in the exact arithmetic of the model).
\<close>

theorem calculateReturns_correct:
  assumes "2 \<le> length ps" and "\<forall>p\<in>set ps. 0 < p"
  shows "length (calculateReturns (map Num ps)) = length ps - 1 \<and>
         (\<forall>i<length ps - 1.
            calculateReturns (map Num ps) ! i = Num ((ps ! (i + 1) - ps ! i) / ps ! i) \<and>
            jmul (Num (ps ! i)) (jadd (Num 1) (calculateReturns (map Num ps) ! i))
              = Num (ps ! (i + 1)))"
proof -
  have len: "length (calculateReturns (map Num ps)) = length ps - 1"
    by (simp add: calculateReturns_def)
  have "calculateReturns (map Num ps) ! i = Num ((ps ! (i + 1) - ps ! i) / ps ! i) \<and>
        jmul (Num (ps ! i)) (jadd (Num 1) (calculateReturns (map Num ps) ! i))
              = Num (ps ! (i + 1))" if i: "i < length ps - 1" for i
  proof -
    from i assms(2) have pos: "0 < ps ! i" by simp
    have r: "calculateReturns (map Num ps) ! i = Num ((ps ! (i + 1) - ps ! i) / ps ! i)"
      using i pos by (simp add: calculateReturns_def jsub_def)
    have "ps ! i * (1 + (ps ! (i + 1) - ps ! i) / ps ! i) = ps ! (i + 1)"
      using pos by (simp add: field_simps)
    with r show ?thesis by simp
  qed
  with len show ?thesis by blast
qed

theorem calculateReturns_correct_witness:
  "2 \<le> length [100, 110, 121 :: real] \<and>
   length (calculateReturns (map Num [100, 110, 121])) = 2 \<and>
   calculateReturns (map Num [100, 110, 121]) ! 0 = Num (1 / 10) \<and>
   jmul (Num 100) (jadd (Num 1) (calculateReturns (map Num [100, 110, 121]) ! 0)) = Num 110"
proof -
  have h: "2 \<le> length [100, 110, 121 :: real]" "\<forall>p\<in>set [100, 110, 121 :: real]. 0 < p"
    by simp_all
  from calculateReturns_correct [OF h] show ?thesis by simp
qed

section \<open>Input validation of the metrics\<close>

text \<open>
  Claim C1, as amended. \<open>calculatePortfolioMetrics\<close> validates nothing. Its only failure is
  the \<open>TypeError\<close> of reading a property of \<open>undefined\<close>, and it is raised exactly when
  the asset list is empty or the weight vector is longer than the asset list. In every
  other case, mismatched series lengths and a shorter weight vector included, the call
  returns a metrics record.
\<close>

theorem calculatePortfolioMetrics_error_iff:
  "calculatePortfolioMetrics assets ws marketReturns = Inl TypeError
     \<longleftrightarrow> assets = [] \<or> length assets < length ws"
  by (rule calculatePortfolioMetrics_fails_iff)

theorem calculatePortfolioMetrics_error_iff_witness:
  "calculatePortfolioMetrics [] [Num 1] [] = Inl TypeError"
  using calculatePortfolioMetrics_error_iff [of "[]" "[Num 1]" "[]"] by simp

text \<open>
  The claim as stated fails: two assets whose return series have lengths 2 and 1 are
  accepted, and the volatility of the result is \<open>NaN\<close>.
\<close>

theorem calculatePortfolioMetrics_mismatch_counterexample:
  "map_sum id volatility
     (calculatePortfolioMetrics
        [\<lparr>symbol = ''A'', name = ''A'', prices = map Num [100, 110, 132],
          returns = map Num [1 / 10, 2 / 10], weight = None\<rparr>,
         \<lparr>symbol = ''B'', name = ''B'', prices = map Num [50, 55],
          returns = map Num [1 / 10], weight = None\<rparr>]
        [Num (1 / 2), Num (1 / 2)] (map Num [1 / 10, 2 / 10])) = Inr NaN"
  by (simp add: metrics_eval)

section \<open>Sums of finite numbers\<close>

lemma foldl_jadd_Num:
  assumes "\<And>j. j \<in> set js \<Longrightarrow> f j = Num (g j)"
  shows "foldl (\<lambda>acc j. jadd acc (f j)) (Num a) js = Num (a + sum_list (map g js))"
  using assms by (induction js arbitrary: a) (simp_all add: add.assoc)

lemma foldl_jadd_Num_upt:
  assumes "\<And>j. j < n \<Longrightarrow> f j = Num (g j)"
  shows "foldl (\<lambda>acc j. jadd acc (f j)) (Num 0) [0..<n] = Num (\<Sum>j<n. g j)"
  using foldl_jadd_Num [of "[0..<n]" f g 0] assms
  by (simp add: interv_sum_list_conv_sum_set_nat atLeast0LessThan)

lemma sumJs_Num: "sumJs (map Num xs) = Num (sum_list xs)"
proof -
  have "foldl jadd (Num a) (map Num xs) = Num (a + sum_list xs)" for a
    by (induction xs arbitrary: a) (simp_all add: add.assoc)
  then show ?thesis by (simp add: sumJs_def)
qed

section \<open>Maximum drawdown\<close>

lemma drawdownStep_nonneg:
  assumes "jle (Num 0) (fst s)"
  shows "jle (Num 0) (fst (drawdownStep vs s i))"
proof -
  obtain d p where s: "s = (d, p)" by (cases s)
  let ?p' = "if jgt (rd vs i) p then rd vs i else p"
  let ?dd = "jdiv (jsub ?p' (rd vs i)) ?p'"
  have "jle (Num 0) ?dd" if "jgt ?dd d"
    using that assms s by (cases d; cases ?dd) (auto simp: jgt_def)
  then show ?thesis using assms s by (simp add: drawdownStep_def Let_def)
qed

lemma drawdown_loop_nonneg:
  "jle (Num 0) (fst s) \<Longrightarrow> jle (Num 0) (fst (foldl (drawdownStep vs) s is))"
  by (induction "is" arbitrary: s) (simp_all add: drawdownStep_nonneg)

lemma calculateMaxDrawdown_nonneg:
  assumes "assets \<noteq> []"
  shows "\<exists>d. calculateMaxDrawdown assets ws = Inr d \<and> jle (Num 0) d"
proof -
  obtain a0 as where a: "assets = a0 # as" using assms by (cases assets) auto
  show ?thesis
    unfolding calculateMaxDrawdown_def a list.case Let_def
    by (simp add: drawdown_loop_nonneg)
qed

lemma drawdown_loop_spec:
  assumes "0 < v 0" and "1 \<le> k" and "k \<le> length vs" and "\<And>t. t < length vs \<Longrightarrow> vs ! t = Num (v t)"
  shows "foldl (drawdownStep vs) (Num 0, Num (v 0)) [1..<k] =
           (Num (maxDrawdown_spec v k), Num (Max (v ` {..<k})))"
  using assms(2,3)
proof (induction k rule: nat_induct_at_least)
  case base
  have "{..<Suc 0} = {0::nat}" by auto
  then show ?case by (simp add: maxDrawdown_spec_def)
next
  case (Suc k)
  let ?p = "Max (v ` {..<k})"
  let ?p' = "Max (v ` {..<Suc k})"
  have "0 \<in> {..<k}" using Suc.hyps by simp
  then have ne: "v ` {..<k} \<noteq> {}" by blast
  have fin: "finite (v ` {..<k})" by simp
  have p': "?p' = max (v k) ?p"
    using fin ne by (simp add: lessThan_Suc)
  have "v 0 \<le> ?p" using Suc.hyps by (intro Max_ge) auto
  with assms(1) have ppos: "0 < ?p'" unfolding p' by linarith
  have rp: "runningPeak_spec v k = ?p'"
    by (simp add: runningPeak_spec_def lessThan_Suc_atMost)
  have rdk: "rd vs k = Num (v k)" using Suc.prems assms(4) by (simp add: rd_def)
  have md: "maxDrawdown_spec v (Suc k) = max ((?p' - v k) / ?p') (maxDrawdown_spec v k)"
  proof -
    let ?S = "(\<lambda>t. (runningPeak_spec v t - v t) / runningPeak_spec v t) ` {1..<k}"
    have "maxDrawdown_spec v (Suc k) = Max (insert ((?p' - v k) / ?p') (insert 0 ?S))"
      using Suc.hyps unfolding maxDrawdown_spec_def
      by (simp add: atLeastLessThanSuc rp insert_commute)
    also have "\<dots> = max ((?p' - v k) / ?p') (Max (insert 0 ?S))"
      by (rule Max_insert) simp_all
    finally show ?thesis by (simp add: maxDrawdown_spec_def)
  qed
  have step: "drawdownStep vs (Num (maxDrawdown_spec v k), Num ?p) k =
          (Num (maxDrawdown_spec v (Suc k)), Num ?p')"
  proof -
    have pk: "(if jgt (rd vs k) (Num ?p) then rd vs k else Num ?p) = Num ?p'"
      unfolding p' by (simp add: rdk jgt_def max_def)
    have dd: "jdiv (jsub (Num ?p') (rd vs k)) (Num ?p') = Num ((?p' - v k) / ?p')"
      using ppos by (simp add: rdk jsub_def)
    show ?thesis
      unfolding drawdownStep_def prod.case Let_def pk dd md
      by (simp add: jgt_def max_def)
  qed
  from Suc.prems have "k \<le> length vs" by simp
  from Suc.IH [OF this] Suc.hyps show ?case
    by (simp add: step)
qed


lemma portfolioValues_Num:
  assumes P: "map prices assets = map (map Num) Ps" and len: "\<forall>P\<in>set Ps. length P = T"
    and w: "length w = length assets" and t: "t < T"
  shows "foldl (\<lambda>portfolioValue j.
                  jadd portfolioValue (jmul (rd (map Num w) j) (rd (prices (assets ! j)) t)))
               (Num 0) [0..<length assets] = Num (portfolioValue_spec w Ps t)"
proof -
  have n: "length Ps = length assets" using P by (metis length_map)
  have "jmul (rd (map Num w) j) (rd (prices (assets ! j)) t) = Num (w ! j * Ps ! j ! t)"
    if j: "j < length assets" for j
  proof -
    have "prices (assets ! j) = map Num (Ps ! j)"
      using P j n by (metis nth_map)
    moreover have "length (Ps ! j) = T" using len j n by simp
    ultimately show ?thesis using j w t by simp
  qed
  then show ?thesis
    unfolding portfolioValue_spec_def n by (rule foldl_jadd_Num_upt)
qed

lemma calculateMaxDrawdown_unfold:
  assumes "assets \<noteq> []"
  shows "calculateMaxDrawdown assets ws =
     (let portfolioValues =
            map (\<lambda>i. foldl (\<lambda>portfolioValue j.
                                   jadd portfolioValue
                                     (jmul (rd ws j) (rd (prices (assets ! j)) i)))
                                (Num 0) [0..<length assets])
                [0..<length (prices (hd assets))]
      in Inr (fst (foldl (drawdownStep portfolioValues)
                     (Num 0, rd portfolioValues 0) [1..<length portfolioValues])))"
proof -
  obtain a0 as where a: "assets = a0 # as" using assms by (cases assets) auto
  show ?thesis
    unfolding calculateMaxDrawdown_def by (subst (1) a) (simp add: a Let_def)
qed

lemma calculateMaxDrawdown_spec:
  assumes ne: "assets \<noteq> []" and P: "map prices assets = map (map Num) Ps"
    and len: "\<forall>P\<in>set Ps. length P = T" and w: "length w = length assets"
    and T: "0 < T" and pos: "0 < portfolioValue_spec w Ps 0"
  shows "calculateMaxDrawdown assets (map Num w)
           = Inr (Num (maxDrawdown_spec (portfolioValue_spec w Ps) T))"
proof -
  have "prices (hd assets) = map Num (hd Ps)" "hd Ps \<in> set Ps"
    using P ne by (cases Ps; cases assets; auto)+
  then have T0: "length (prices (hd assets)) = T" using len by simp
  let ?v = "portfolioValue_spec w Ps"
  let ?vs = "map (\<lambda>t. Num (?v t)) [0..<T]"
  have vs: "map (\<lambda>i. foldl (\<lambda>portfolioValue j.
                  jadd portfolioValue (jmul (rd (map Num w) j) (rd (prices (assets ! j)) i)))
               (Num 0) [0..<length assets]) [0..<T] = ?vs"
    using portfolioValues_Num [OF P len w] by simp
  have loop: "foldl (drawdownStep ?vs) (Num 0, Num (?v 0)) [1..<T] =
           (Num (maxDrawdown_spec ?v T), Num (Max (?v ` {..<T})))"
    by (rule drawdown_loop_spec) (use T pos in simp_all)
  have rd0: "rd ?vs 0 = Num (?v 0)" using T by (simp add: rd_def)
  show ?thesis
    unfolding calculateMaxDrawdown_unfold [OF ne] Let_def T0 vs
    using loop by (simp add: rd0 del: upt_Suc)
qed

text \<open>
  Claim C8. Whenever \<open>calculateMaxDrawdown\<close> returns (the asset list is not empty), its
  result is at least 0. For finite weights and aligned finite price series of \<open>T\<close>
  periods, with a positive first portfolio value, the result is the maximum over the
  periods of \<open>(peak - value[t]) / peak\<close>, where \<open>value[t]\<close> is the weighted sum of the
  prices at \<open>t\<close> and \<open>peak\<close> the running maximum of the values. For the single asset
  with prices 100, 80, 90 and weight 1 the result is exactly 0.2.
\<close>

theorem calculateMaxDrawdown_correct:
  "(assets \<noteq> [] \<longrightarrow> (\<exists>d. calculateMaxDrawdown assets ws = Inr d \<and> jle (Num 0) d)) \<and>
   (assets \<noteq> [] \<and> map prices assets = map (map Num) Ps \<and> (\<forall>P\<in>set Ps. length P = T) \<and>
    length w = length assets \<and> 0 < T \<and> 0 < portfolioValue_spec w Ps 0 \<longrightarrow>
      calculateMaxDrawdown assets (map Num w)
        = Inr (Num (maxDrawdown_spec (portfolioValue_spec w Ps) T))) \<and>
   calculateMaxDrawdown
     [\<lparr>symbol = ''A'', name = ''A'', prices = map Num [100, 80, 90],
       returns = map Num [- 1 / 5, 1 / 8], weight = None\<rparr>] [Num 1] = Inr (Num (1 / 5))"
proof (intro conjI impI)
  show "calculateMaxDrawdown
     [\<lparr>symbol = ''A'', name = ''A'', prices = map Num [100, 80, 90],
       returns = map Num [- 1 / 5, 1 / 8], weight = None\<rparr>] [Num 1] = Inr (Num (1 / 5))"
    by (simp add: metrics_eval)
qed (auto intro: calculateMaxDrawdown_nonneg calculateMaxDrawdown_spec)

theorem calculateMaxDrawdown_correct_witness:
  "calculateMaxDrawdown
     [\<lparr>symbol = ''A'', name = ''A'', prices = map Num [100, 80, 90],
       returns = map Num [- 1 / 5, 1 / 8], weight = None\<rparr>] (map Num [1])
     = Inr (Num (maxDrawdown_spec (portfolioValue_spec [1] [[100, 80, 90]]) 3)) \<and>
   maxDrawdown_spec (portfolioValue_spec [1] [[100, 80, 90]]) 3 = 1 / 5 \<and>
   (\<exists>d. calculateMaxDrawdown
     [\<lparr>symbol = ''A'', name = ''A'', prices = map Num [100, 80, 90],
       returns = map Num [- 1 / 5, 1 / 8], weight = None\<rparr>] [Num 1] = Inr d \<and> jle (Num 0) d)"
proof -
  let ?A = "[\<lparr>symbol = ''A'', name = ''A'', prices = map Num [100, 80, 90],
       returns = map Num [- 1 / 5, 1 / 8], weight = None\<rparr>]"
  note t = calculateMaxDrawdown_correct [of ?A "[Num 1]" "[[100, 80, 90]]" 3 "[1]"]
  have h: "?A \<noteq> [] \<and> map prices ?A = map (map Num) [[100, 80, 90]] \<and>
     (\<forall>P\<in>set [[100, 80, 90 :: real]]. length P = 3) \<and>
    length [1 :: real] = length ?A \<and> 0 < (3 :: nat) \<and> 0 < portfolioValue_spec [1] [[100, 80, 90]] 0"
    by (simp add: portfolioValue_spec_def)
  have 1: "calculateMaxDrawdown ?A (map Num [1])
     = Inr (Num (maxDrawdown_spec (portfolioValue_spec [1] [[100, 80, 90]]) 3))"
    using t h by blast
  have 2: "\<exists>d. calculateMaxDrawdown ?A [Num 1] = Inr d \<and> jle (Num 0) d"
    using t by blast
  have 3: "calculateMaxDrawdown ?A [Num 1] = Inr (Num (1 / 5))"
    using t by blast
  from 1 3 have "maxDrawdown_spec (portfolioValue_spec [1] [[100, 80, 90]]) 3 = 1 / 5"
    by simp
  with 1 2 show ?thesis by blast
qed

section \<open>Covariance matrix of finite series\<close>

lemma calculateCovarianceMatrix_unfold:
  assumes "rets \<noteq> []"
  shows "calculateCovarianceMatrix rets =
     (let n = length rets;
          m = length (hd rets);
          means = map (\<lambda>assetReturns.
                    jdiv (sumJs assetReturns) (Num (real (length assetReturns)))) rets
      in Inr (map (\<lambda>i. map (\<lambda>j.
            jmul (jdiv (foldl (\<lambda>covariance k.
                          jadd covariance
                            (jmul (jsub (rd (rets ! i) k) (rd means i))
                                  (jsub (rd (rets ! j) k) (rd means j))))
                        (Num 0) [0..<m])
                    (Num (real m - 1)))
                 (Num 252)) [0..<n]) [0..<n]))"
proof -
  obtain r0 rs where r: "rets = r0 # rs" using assms by (cases rets) auto
  show ?thesis
    unfolding calculateCovarianceMatrix_def by (subst (1) r) (simp add: r Let_def)
qed

lemma mean_Num:
  assumes "i < length rss" "length (rss ! i) = m" "0 < m"
  shows "rd (map (\<lambda>assetReturns. jdiv (sumJs assetReturns) (Num (real (length assetReturns))))
              (map (map Num) rss)) i = Num (mean_spec (rss ! i))"
  using assms by (simp add: rd_def sumJs_Num mean_spec_def)

lemma covariance_sum_Num:
  assumes i: "i < length rss" and j: "j < length rss"
    and len: "\<forall>r\<in>set rss. length r = m" and m: "0 < m"
  shows "foldl (\<lambda>covariance k.
            jadd covariance
              (jmul (jsub (rd (map (map Num) rss ! i) k)
                      (rd (map (\<lambda>assetReturns.
                             jdiv (sumJs assetReturns) (Num (real (length assetReturns))))
                           (map (map Num) rss)) i))
                    (jsub (rd (map (map Num) rss ! j) k)
                      (rd (map (\<lambda>assetReturns.
                             jdiv (sumJs assetReturns) (Num (real (length assetReturns))))
                           (map (map Num) rss)) j))))
            (Num 0) [0..<m]
         = Num (\<Sum>k<m. (rss ! i ! k - mean_spec (rss ! i)) * (rss ! j ! k - mean_spec (rss ! j)))"
proof -
  have li: "length (rss ! i) = m" and lj: "length (rss ! j) = m" using len i j by simp_all
  show ?thesis
    unfolding mean_Num [OF i li m] mean_Num [OF j lj m]
    by (rule foldl_jadd_Num_upt) (use i j li lj in \<open>simp add: jsub_def\<close>)
qed

lemma covariance_entry:
  assumes ne: "rss \<noteq> []" and len: "\<forall>r\<in>set rss. length r = m" and m: "2 \<le> m"
  shows "calculateCovarianceMatrix (map (map Num) rss) =
           Inr (map (\<lambda>i. map (\<lambda>j. Num (sampleCovariance_spec (rss ! i) (rss ! j) * 252))
                  [0..<length rss]) [0..<length rss])"
proof -
  have m0: "0 < m" using m by simp
  have hd: "length (hd (map (map Num) rss)) = m" using ne len by (cases rss) auto
  have entry: "jmul (jdiv (Num (\<Sum>k<m. (rss ! i ! k - mean_spec (rss ! i)) * (rss ! j ! k - mean_spec (rss ! j))))
                      (Num (real m - 1))) (Num 252)
        = Num (sampleCovariance_spec (rss ! i) (rss ! j) * 252)"
    if "i < length rss" "j < length rss" for i j
  proof -
    have "length (rss ! i) = m" using len that by simp
    then show ?thesis using m by (simp add: sampleCovariance_spec_def)
  qed
  have ne': "map (map Num) rss \<noteq> []" using ne by simp
  have n: "length (map (map Num) rss) = length rss" by simp
  show ?thesis
    unfolding calculateCovarianceMatrix_unfold [OF ne'] Let_def hd n
    apply (intro arg_cong [where f = Inr] map_cong refl)
    subgoal for i j
      by (simp only: set_upt atLeastLessThan_iff covariance_sum_Num [OF _ _ len m0] entry)
    done
qed

text \<open>
  Claim C4. For a non-empty collection of \<open>n\<close> finite return series of equal length
  \<open>m\<close>, at least 2, \<open>calculateCovarianceMatrix\<close> returns an \<open>n\<close> by \<open>n\<close> matrix whose entry
  \<open>(i, j)\<close> is the unbiased sample covariance of the series \<open>i\<close> and \<open>j\<close> times 252; the
  matrix is symmetric and its diagonal entry \<open>(i, i)\<close> is the sample variance of the series
  \<open>i\<close> times 252.
\<close>

theorem calculateCovarianceMatrix_correct:
  assumes "rss \<noteq> []" and "\<forall>r\<in>set rss. length r = m" and "2 \<le> m"
  shows "\<exists>M. calculateCovarianceMatrix (map (map Num) rss) = Inr M \<and>
           length M = length rss \<and>
           (\<forall>i<length rss.
              length (M ! i) = length rss \<and>
              M ! i ! i = Num (sampleVariance_spec (rss ! i) * 252) \<and>
              (\<forall>j<length rss.
                 M ! i ! j = Num (sampleCovariance_spec (rss ! i) (rss ! j) * 252) \<and>
                 M ! i ! j = M ! j ! i))"
proof -
  have sym: "sampleCovariance_spec (rss ! i) (rss ! j) = sampleCovariance_spec (rss ! j) (rss ! i)"
    if "i < length rss" "j < length rss" for i j
  proof -
    have "length (rss ! i) = length (rss ! j)" using assms(2) that by simp
    then show ?thesis by (simp add: sampleCovariance_spec_def mult.commute)
  qed
  have var: "sampleCovariance_spec xs xs = sampleVariance_spec xs" for xs
    by (simp add: sampleCovariance_spec_def sampleVariance_spec_def power2_eq_square)
  show ?thesis
    unfolding covariance_entry [OF assms]
    by (auto simp: var sym simp del: upt_Suc)
qed


theorem calculateCovarianceMatrix_correct_witness:
  "[[1 / 10, 2 / 10], [0, 1 / 10 :: real]] \<noteq> [] \<and> (2 :: nat) \<le> 2 \<and>
   (\<exists>M. calculateCovarianceMatrix (map (map Num) [[1 / 10, 2 / 10], [0, 1 / 10]]) = Inr M \<and>
        length M = 2 \<and> length (M ! 0) = 2 \<and>
        M ! 0 ! 0 = Num (sampleVariance_spec [1 / 10, 2 / 10] * 252) \<and>
        M ! 0 ! 1 = Num (sampleCovariance_spec [1 / 10, 2 / 10] [0, 1 / 10] * 252) \<and>
        M ! 0 ! 1 = M ! 1 ! 0)"
proof -
  have h: "[[1 / 10, 2 / 10], [0, 1 / 10 :: real]] \<noteq> []"
      "\<forall>r\<in>set [[1 / 10, 2 / 10], [0, 1 / 10 :: real]]. length r = 2" "(2 :: nat) \<le> 2"
    by simp_all
  from calculateCovarianceMatrix_correct [OF h] obtain M where
    M: "calculateCovarianceMatrix (map (map Num) [[1 / 10, 2 / 10], [0, 1 / 10]]) = Inr M"
       "length M = length [[1 / 10, 2 / 10], [0, 1 / 10 :: real]]"
       "\<forall>i<length [[1 / 10, 2 / 10], [0, 1 / 10 :: real]].
              length (M ! i) = length [[1 / 10, 2 / 10], [0, 1 / 10 :: real]] \<and>
              M ! i ! i = Num (sampleVariance_spec ([[1 / 10, 2 / 10], [0, 1 / 10]] ! i) * 252) \<and>
              (\<forall>j<length [[1 / 10, 2 / 10], [0, 1 / 10 :: real]].
                 M ! i ! j = Num (sampleCovariance_spec ([[1 / 10, 2 / 10], [0, 1 / 10]] ! i)
                                    ([[1 / 10, 2 / 10], [0, 1 / 10]] ! j) * 252) \<and>
                 M ! i ! j = M ! j ! i)"
    by blast
  have i0: "0 < length [[1 / 10, 2 / 10], [0, 1 / 10 :: real]]" by simp
  note row0 = M(3) [rule_format, OF i0]
  from row0 have d: "length (M ! 0) = 2 \<and>
      M ! 0 ! 0 = Num (sampleVariance_spec [1 / 10, 2 / 10] * 252)"
    by simp
  from row0 [THEN conjunct2, THEN conjunct2, rule_format, of 1] have
    "M ! 0 ! 1 = Num (sampleCovariance_spec [1 / 10, 2 / 10] [0, 1 / 10] * 252) \<and>
     M ! 0 ! 1 = M ! 1 ! 0"
    by auto
  with d M(1,2) show ?thesis by (intro conjI exI [of _ M]) auto
qed

section \<open>The fields of the metrics\<close>

lemma calculatePortfolioMetrics_ok:
  assumes ne: "assets \<noteq> []" and le: "length ws \<le> length assets"
  shows "\<exists>M pv prs d.
           calculateCovarianceMatrix (map returns assets) = Inr M \<and>
           length M = length assets \<and>
           portfolioVariance ws M = Inr pv \<and>
           calculatePortfolioReturns (map returns assets) ws = Inr prs \<and>
           calculateMaxDrawdown assets ws = Inr d \<and>
           calculatePortfolioMetrics assets ws marketReturns =
             Inr \<lparr>expectedReturn = expectedReturnOf assets ws,
                  volatility = jsqrt pv,
                  sharpeRatio = jdiv (jsub (expectedReturnOf assets ws) (Num (2 / 100))) (jsqrt pv),
                  beta = calculateBeta prs marketReturns,
                  var95 = jdiv (jmul (Num (- 1645 / 1000)) (jsqrt pv)) (jsqrt (Num 252)),
                  maxDrawdown = d, weights = ws\<rparr>"
proof -
  obtain M where M: "calculateCovarianceMatrix (map returns assets) = Inr M"
      "length M = length assets"
    using calculateCovarianceMatrix_length [of "map returns assets"] ne by auto
  obtain pv where pv: "portfolioVariance ws M = Inr pv"
    using portfolioVariance_ok [of ws M] le M(2) by simp
  obtain prs where prs: "calculatePortfolioReturns (map returns assets) ws = Inr prs"
    using calculatePortfolioReturns_ok [of "map returns assets" ws] ne le by simp
  obtain d where d: "calculateMaxDrawdown assets ws = Inr d"
    using calculateMaxDrawdown_ok [OF ne] by blast
  have "calculatePortfolioMetrics assets ws marketReturns =
             Inr \<lparr>expectedReturn = expectedReturnOf assets ws,
                  volatility = jsqrt pv,
                  sharpeRatio = jdiv (jsub (expectedReturnOf assets ws) (Num (2 / 100))) (jsqrt pv),
                  beta = calculateBeta prs marketReturns,
                  var95 = jdiv (jmul (Num (- 1645 / 1000)) (jsqrt pv)) (jsqrt (Num 252)),
                  maxDrawdown = d, weights = ws\<rparr>"
    unfolding calculatePortfolioMetrics_def Let_def M pv prs d sum.case
      expectedReturnOf_def meanReturnsOf_def ..
  with M pv prs d show ?thesis by blast
qed

section \<open>Rounding to double\<close>

lemma pow2_Suc: "pow2 (e + 1) = 2 * pow2 e"
proof (cases "0 \<le> e")
  case True
  then have "nat (e + 1) = Suc (nat e)" by simp
  with True show ?thesis by (simp add: pow2_def)
next
  case False
  then have "nat (- e) = Suc (nat (- (e + 1)))" by simp
  with False show ?thesis by (simp add: pow2_def)
qed

lemma normalise_value:
  "fst (normalise fuel m e) * pow2 (snd (normalise fuel m e)) = m * pow2 e"
proof (induction fuel arbitrary: m e)
  case 0
  show ?case by simp
next
  case (Suc fuel)
  have a: "m / 2 * pow2 (e + 1) = m * pow2 e" by (simp add: pow2_Suc)
  have "pow2 e = 2 * pow2 (e - 1)" using pow2_Suc [of "e - 1"] by simp
  then have b: "2 * m * pow2 (e - 1) = m * pow2 e" by simp
  consider (down) "2 ^ 53 \<le> m" | (up) "\<not> 2 ^ 53 \<le> m" "m < 2 ^ 52 \<and> - 1074 < e"
    | (stop) "\<not> 2 ^ 53 \<le> m" "\<not> (m < 2 ^ 52 \<and> - 1074 < e)"
    by blast
  then show ?case
  proof cases
    case down
    then have "normalise (Suc fuel) m e = normalise fuel (m / 2) (e + 1)" by simp
    then show ?thesis by (simp only: Suc.IH [of "m / 2" "e + 1"] a)
  next
    case up
    then have "normalise (Suc fuel) m e = normalise fuel (2 * m) (e - 1)" by simp
    then show ?thesis by (simp only: Suc.IH [of "2 * m" "e - 1"] b)
  next
    case stop
    then have "normalise (Suc fuel) m e = (m, e)" by auto
    then show ?thesis by simp
  qed
qed

lemma normalise_down:
  assumes "2 ^ 53 \<le> m" and "m < 2 ^ 53 * 2 ^ k" and "k \<le> fuel"
  shows "2 ^ 52 \<le> fst (normalise fuel m e) \<and> fst (normalise fuel m e) < 2 ^ 53"
  using assms
proof (induction fuel arbitrary: m e k)
  case 0
  then show ?case by simp
next
  case (Suc fuel)
  from Suc.prems have k: "0 < k" by (cases k) auto
  then obtain k' where k': "k = Suc k'" by (cases k) auto
  have half: "m / 2 < 2 ^ 53 * 2 ^ k'" using Suc.prems(2) k' by simp
  show ?case
  proof (cases "2 ^ 53 \<le> m / 2")
    case True
    from Suc.IH [OF True half, of "e + 1"] Suc.prems k' show ?thesis by simp
  next
    case False
    have lo: "2 ^ 52 \<le> m / 2" using Suc.prems(1) by simp
    have "normalise fuel (m / 2) (e + 1) = (m / 2, e + 1)"
      using False lo by (cases fuel) simp_all
    with Suc.prems(1) False lo show ?thesis by simp
  qed
qed

lemma normalise_up:
  assumes "0 \<le> m" and "m < 2 ^ 53" and "- 1074 \<le> e" and "nat (e + 1074) \<le> fuel"
  shows "fst (normalise fuel m e) < 2 ^ 53 \<and>
         (2 ^ 52 \<le> fst (normalise fuel m e) \<or> snd (normalise fuel m e) = - 1074)"
  using assms
proof (induction fuel arbitrary: m e)
  case 0
  then show ?case by simp
next
  case (Suc fuel)
  show ?case
  proof (cases "m < 2 ^ 52 \<and> - 1074 < e")
    case True
    have "fst (normalise fuel (2 * m) (e - 1)) < 2 ^ 53 \<and>
         (2 ^ 52 \<le> fst (normalise fuel (2 * m) (e - 1)) \<or>
          snd (normalise fuel (2 * m) (e - 1)) = - 1074)"
      using True Suc.prems by (intro Suc.IH) auto
    with True Suc.prems(2) show ?thesis by simp
  next
    case False
    with Suc.prems show ?thesis by auto
  qed
qed

lemma normalise_enough:
  assumes "0 < x" and "x < 2 ^ 1024"
  shows "fst (normalise 2200 x 0) * pow2 (snd (normalise 2200 x 0)) = x \<and>
         fst (normalise 2200 x 0) < 2 ^ 53 \<and>
         (2 ^ 52 \<le> fst (normalise 2200 x 0) \<or> snd (normalise 2200 x 0) = - 1074)"
proof -
  have v: "fst (normalise 2200 x 0) * pow2 (snd (normalise 2200 x 0)) = x"
    using normalise_value [of 2200 x 0] by (simp add: pow2_def)
  show ?thesis
  proof (cases "2 ^ 53 \<le> x")
    case True
    have "x < 2 ^ 53 * 2 ^ 971" using assms(2) by (simp add: power_add [symmetric])
    from normalise_down [OF True this, of 2200 0] v show ?thesis by simp
  next
    case False
    from normalise_up [of x 0 2200] assms False v show ?thesis by simp
  qed
qed

lemma normalise_nonneg:
  "0 \<le> m \<Longrightarrow> 0 \<le> fst (normalise fuel m e)"
  by (induction fuel arbitrary: m e) simp_all

lemma roundHalfEven_nonneg: "0 \<le> m \<Longrightarrow> 0 \<le> roundHalfEven m"
  by (simp add: roundHalfEven_def Let_def)

lemma pow2_pos: "0 < pow2 e"
  by (simp add: pow2_def)

lemma roundDouble_nonneg:
  assumes "0 \<le> x"
  shows "0 \<le> roundDouble x"
proof (cases "x = 0")
  case True
  then show ?thesis by (simp add: roundDouble_def)
next
  case False
  obtain m e where n: "normalise 2200 x 0 = (m, e)" by (cases "normalise 2200 x 0")
  have "0 \<le> m" using normalise_nonneg [of x 2200 0] n assms by simp
  then have "0 \<le> real_of_int (roundHalfEven m) * pow2 e"
    using roundHalfEven_nonneg [of m] pow2_pos [of e] by simp
  with assms False show ?thesis
    by (simp add: roundDouble_def n sgn_if mult.assoc)
qed

lemma fl_nonneg: "0 \<le> x \<Longrightarrow> jle (Num 0) (fl (Num x))"
  by (simp add: roundDouble_nonneg)

lemma normalise_numeral:
  "normalise (numeral k) m e =
     (if 2 ^ 53 \<le> m then normalise (pred_numeral k) (m / 2) (e + 1)
      else if m < 2 ^ 52 \<and> - 1074 < e then normalise (pred_numeral k) (2 * m) (e - 1)
      else (m, e))"
  by (simp add: numeral_eq_Suc)

lemmas fl_eval = roundDouble_def roundHalfEven_def pow2_def normalise_numeral Let_def

section \<open>The volatility is not clamped\<close>

lemma dsqrt_sign:
  "jle (Num 0) (dsqrt pv) \<longleftrightarrow> jle (Num 0) pv"
  "dsqrt pv = NaN \<longleftrightarrow> pv = NaN \<or> jlt pv (Num 0)"
proof -
  show "jle (Num 0) (dsqrt pv) \<longleftrightarrow> jle (Num 0) pv"
  proof (cases pv)
    case (Num p)
    then show ?thesis
      using fl_nonneg [of "sqrt p"] by (cases "p < 0") (simp_all add: dsqrt_def)
  qed (simp_all add: dsqrt_def)
  show "dsqrt pv = NaN \<longleftrightarrow> pv = NaN \<or> jlt pv (Num 0)"
    by (cases pv) (simp_all add: dsqrt_def)
qed

lemma volatility_double_sqrt:
  assumes "volatility_double assets ws = Inr v"
  shows "\<exists>pv. variance_double assets ws = Inr pv \<and> v = dsqrt pv \<and>
               (jle (Num 0) v \<longleftrightarrow> jle (Num 0) pv) \<and>
               (v = NaN \<longleftrightarrow> pv = NaN \<or> jlt pv (Num 0))"
  using assms unfolding volatility_double_def
  by (auto split: sum.splits simp: dsqrt_sign)

lemma lit7: "jsLiteral (7 / 100) = Num (1261007895663739 / 18014398509481984)"
  by (simp add: jsLiteral_def fl_eval)

lemma lit21: "jsLiteral (- 21 / 100) = Num (- 7566047373982433 / 36028797018963968)"
  by (simp add: jsLiteral_def fl_eval)

lemma cov_example:
  "calculateCovarianceMatrix_double
     [[Num 0, jsLiteral (7 / 100)], [Num 0, jsLiteral (- 21 / 100)]]
   = Inr [[Num (5561044819877089 / 9007199254740992), Num (- 8341567229815633 / 4503599627370496)],
          [Num (- 8341567229815633 / 4503599627370496), Num (1564043855590431 / 281474976710656)]]"
  unfolding lit7 lit21
  by (simp add: calculateCovarianceMatrix_double_def dadd_def dsub_def dmul_def ddiv_def
      jsub_def rd_def fl_eval)

lemma variance_example:
  "portfolioVariance_double [Num (3 / 4), Num (1 / 4)]
     [[Num (5561044819877089 / 9007199254740992), Num (- 8341567229815633 / 4503599627370496)],
      [Num (- 8341567229815633 / 4503599627370496), Num (1564043855590431 / 281474976710656)]]
   = Inr (Num (- 1 / 18014398509481984))"
  by (simp add: portfolioVariance_double_def dadd_def dmul_def row_def rd_def fl_eval)

lemma variance_double_example:
  "variance_double
     [\<lparr>symbol = ''A'', name = ''A'', prices = [Num 100, Num 100, Num 107],
       returns = [Num 0, jsLiteral (7 / 100)], weight = None\<rparr>,
      \<lparr>symbol = ''B'', name = ''B'', prices = [Num 100, Num 100, Num 79],
       returns = [Num 0, jsLiteral (- 21 / 100)], weight = None\<rparr>]
     [Num (3 / 4), Num (1 / 4)] = Inr (Num (- 1 / 2 ^ 54))"
proof -
  have r: "map returns [\<lparr>symbol = ''A'', name = ''A'', prices = [Num 100, Num 100, Num 107],
       returns = [Num 0, jsLiteral (7 / 100)], weight = None\<rparr>,
      \<lparr>symbol = ''B'', name = ''B'', prices = [Num 100, Num 100, Num 79],
       returns = [Num 0, jsLiteral (- 21 / 100)], weight = None\<rparr>]
             = [[Num 0, jsLiteral (7 / 100)], [Num 0, jsLiteral (- 21 / 100)]]"
    by simp
  show ?thesis
    unfolding variance_double_def r cov_example sum.case variance_example by simp
qed

text \<open>
  Claim C2, as amended. The variance is not clamped before the square root: in double
  arithmetic the volatility is the square root of the accumulated variance as it is, so it
  is a number at least 0 exactly when the accumulated variance is a number at least 0, and
  it is \<open>NaN\<close> exactly when the variance is \<open>NaN\<close> or negative.
\<close>

theorem volatility_double_unclamped:
  assumes "volatility_double assets ws = Inr v"
  shows "\<exists>pv. variance_double assets ws = Inr pv \<and> v = dsqrt pv \<and>
               (jle (Num 0) v \<longleftrightarrow> jle (Num 0) pv) \<and>
               (v = NaN \<longleftrightarrow> pv = NaN \<or> jlt pv (Num 0))"
  using assms by (rule volatility_double_sqrt)

lemma variance_double_positive_example:
  "variance_double [\<lparr>symbol = ''C'', name = ''C'', prices = [Num 100, Num 100, Num 300],
       returns = [Num 0, Num 2], weight = None\<rparr>] [Num 1] = Inr (Num 504)"
  by (simp add: variance_double_def calculateCovarianceMatrix_double_def
      portfolioVariance_double_def dadd_def dsub_def dmul_def ddiv_def jsub_def rd_def row_def
      fl_eval)

theorem volatility_double_unclamped_witness:
  "volatility_double [\<lparr>symbol = ''C'', name = ''C'', prices = [Num 100, Num 100, Num 300],
       returns = [Num 0, Num 2], weight = None\<rparr>] [Num 1] = Inr (dsqrt (Num 504)) \<and>
   variance_double [\<lparr>symbol = ''C'', name = ''C'', prices = [Num 100, Num 100, Num 300],
       returns = [Num 0, Num 2], weight = None\<rparr>] [Num 1] = Inr (Num 504) \<and>
   jle (Num 0) (dsqrt (Num 504)) \<and> dsqrt (Num 504) \<noteq> NaN"
proof -
  have v: "volatility_double [\<lparr>symbol = ''C'', name = ''C'', prices = [Num 100, Num 100, Num 300],
       returns = [Num 0, Num 2], weight = None\<rparr>] [Num 1] = Inr (dsqrt (Num 504))"
    unfolding volatility_double_def variance_double_positive_example by simp
  from volatility_double_unclamped [OF v] show ?thesis
    using v by (auto simp: variance_double_positive_example)
qed

text \<open>
  The claim as stated fails on ordinary input: for two assets with the returns
  \<open>[0, 0.07]\<close> and \<open>[0, -0.21]\<close> and the weights \<open>[0.75, 0.25]\<close> the exact variance is
  0, rounding leaves the accumulated variance at \<open>-2^-54\<close>, and the volatility is \<open>NaN\<close>.
\<close>

theorem volatility_double_counterexample:
  "variance_double
     [\<lparr>symbol = ''A'', name = ''A'', prices = [Num 100, Num 100, Num 107],
       returns = [Num 0, jsLiteral (7 / 100)], weight = None\<rparr>,
      \<lparr>symbol = ''B'', name = ''B'', prices = [Num 100, Num 100, Num 79],
       returns = [Num 0, jsLiteral (- 21 / 100)], weight = None\<rparr>]
     [Num (3 / 4), Num (1 / 4)] = Inr (Num (- 1 / 2 ^ 54)) \<and>
   volatility_double
     [\<lparr>symbol = ''A'', name = ''A'', prices = [Num 100, Num 100, Num 107],
       returns = [Num 0, jsLiteral (7 / 100)], weight = None\<rparr>,
      \<lparr>symbol = ''B'', name = ''B'', prices = [Num 100, Num 100, Num 79],
       returns = [Num 0, jsLiteral (- 21 / 100)], weight = None\<rparr>]
     [Num (3 / 4), Num (1 / 4)] = Inr NaN"
  unfolding volatility_double_def variance_double_example by (simp add: dsqrt_def)

section \<open>Random weight vectors\<close>

lemma normalizedWeights_counter: "snd (normalizedWeights rnd n k) = k + n"
  by (simp add: normalizedWeights_def Let_def)

lemma normalizedWeights_length: "length (fst (normalizedWeights rnd n k)) = n"
  by (simp add: normalizedWeights_def Let_def)

lemma draws_sum: "foldl jadd (Num 0) (map (\<lambda>i. Num (rnd (k + i))) [0..<n]) = Num (\<Sum>i<n. rnd (k + i))"
  using foldl_jadd_Num_upt [of n "\<lambda>i. Num (rnd (k + i))" "\<lambda>i. rnd (k + i)"]
  by (simp add: foldl_map)

lemma normalizedWeights_positive_sum:
  assumes s: "(\<Sum>i<n. rnd (k + i)) \<noteq> 0"
  shows "fst (normalizedWeights rnd n k)
           = map Num (map (\<lambda>i. rnd (k + i) / (\<Sum>i<n. rnd (k + i))) [0..<n])"
  using s by (simp add: normalizedWeights_def Let_def draws_sum)

lemma normalizedWeights_zero_sum:
  assumes s: "(\<Sum>i<n. rnd (k + i)) = 0" and r: "\<forall>i. 0 \<le> rnd i"
  shows "fst (normalizedWeights rnd n k) = replicate n NaN"
proof -
  have "rnd (k + i) = 0" if "i < n" for i
  proof -
    have "(\<Sum>i<n. rnd (k + i)) = 0 \<longleftrightarrow> (\<forall>i\<in>{..<n}. rnd (k + i) = 0)"
      using r by (intro sum_nonneg_eq_0_iff) auto
    with s that show ?thesis by simp
  qed
  then have "map (\<lambda>w. jdiv w (Num 0)) (map (\<lambda>i. Num (rnd (k + i))) [0..<n]) = map (\<lambda>i. NaN) [0..<n]"
    by (simp add: infOfSign_def)
  then show ?thesis
    by (simp add: normalizedWeights_def Let_def draws_sum s map_replicate_const)
qed

lemma normalizedWeights_simplex:
  assumes r: "\<forall>i. 0 \<le> rnd i \<and> rnd i < 1" and nz: "\<exists>i<n. rnd (k + i) \<noteq> 0"
  shows "\<exists>w. fst (normalizedWeights rnd n k) = map Num w \<and> length w = n \<and>
             (\<forall>x\<in>set w. 0 \<le> x) \<and> sum_list w = 1 \<and>
             sumJs (fst (normalizedWeights rnd n k)) = Num 1"
proof -
  let ?s = "\<Sum>i<n. rnd (k + i)"
  let ?w = "map (\<lambda>i. rnd (k + i) / ?s) [0..<n]"
  have "?s = 0 \<longleftrightarrow> (\<forall>i\<in>{..<n}. rnd (k + i) = 0)"
    using r by (intro sum_nonneg_eq_0_iff) auto
  with nz have s0: "?s \<noteq> 0" by auto
  moreover have "0 \<le> ?s" using r by (simp add: sum_nonneg)
  ultimately have spos: "0 < ?s" by simp
  have w: "fst (normalizedWeights rnd n k) = map Num ?w"
    by (rule normalizedWeights_positive_sum [OF s0])
  have "sum_list ?w = (\<Sum>i<n. rnd (k + i) / ?s)"
    by (simp add: interv_sum_list_conv_sum_set_nat atLeast0LessThan)
  also have "\<dots> = ?s / ?s" by (rule sum_divide_distrib [symmetric])
  also have "\<dots> = 1" using s0 by simp
  finally have one: "sum_list ?w = 1" .
  have nonneg: "\<forall>x\<in>set ?w. 0 \<le> x" using r spos by auto
  show ?thesis
    unfolding w sumJs_Num one using one nonneg by (intro exI [of _ ?w]) simp
qed

text \<open>
  Claim C6, as amended. A weight vector generated from draws in \<open>[0, 1)\<close> of which at
  least one is not zero consists of finite numbers, none negative, that sum to 1 (exactly,
  in the exact arithmetic of the model), whatever the number of draws made before.
\<close>

theorem normalizedWeights_on_simplex:
  assumes "\<forall>i. 0 \<le> rnd i \<and> rnd i < 1" and "\<exists>i<n. rnd (k + i) \<noteq> 0"
  shows "\<exists>w. fst (normalizedWeights rnd n k) = map Num w \<and> length w = n \<and>
             (\<forall>x\<in>set w. 0 \<le> x) \<and> sum_list w = 1 \<and>
             sumJs (fst (normalizedWeights rnd n k)) = Num 1"
  using assms by (rule normalizedWeights_simplex)

theorem normalizedWeights_on_simplex_witness:
  "\<exists>w. fst (normalizedWeights (\<lambda>i. 1 / 2) 2 0) = map Num w \<and> length w = 2 \<and>
       sum_list w = 1 \<and> sumJs (fst (normalizedWeights (\<lambda>i. 1 / 2) 2 0)) = Num 1"
proof -
  have r: "\<forall>i. 0 \<le> (\<lambda>i. 1 / 2 :: real) i \<and> (\<lambda>i. 1 / 2 :: real) i < 1" by simp
  have nz: "\<exists>i<2::nat. (\<lambda>i. 1 / 2 :: real) (0 + i) \<noteq> 0" by (intro exI [of _ 0]) simp
  from normalizedWeights_on_simplex [OF r nz] show ?thesis by blast
qed

text \<open>
  The claim as stated fails: \<open>0\<close> is a possible draw, and for one asset and the draw \<open>0\<close>
  the sum is \<open>0\<close> and the weight is \<open>0 / 0\<close>, which is \<open>NaN\<close>.
\<close>

theorem normalizedWeights_counterexample:
  "fst (normalizedWeights (constantStream 0) 1 0) = [NaN]"
  by (simp add: normalizedWeights_def infOfSign_def constantStream_def)

section \<open>Comparisons and \<open>NaN\<close>\<close>

lemma jgt_irrefl [simp]: "\<not> jgt a a"
  by (cases a) (simp_all add: jgt_def)

lemma jgt_trans: "jgt a b \<Longrightarrow> jgt b c \<Longrightarrow> jgt a c"
  by (cases a; cases b; cases c) (simp_all add: jgt_def)

lemma jle_jgt_trans: "jle a b \<Longrightarrow> jgt a c \<Longrightarrow> jgt b c"
  by (cases a; cases b; cases c) (simp_all add: jgt_def)

lemma jlt_PosInf: "jlt a b \<Longrightarrow> jlt a PosInf"
  by (cases a; cases b) simp_all

lemma foldl_jadd_NaN: "foldl (\<lambda>acc i. jadd acc (f i)) NaN is = NaN"
  by (induction "is") simp_all

lemma jadd_NaN_right [simp]: "jadd a NaN = NaN"
  by (cases a) simp_all

lemma jsub_NaN_right [simp]: "jsub a NaN = NaN"
  by (simp add: jsub_def)

section \<open>The optimizer\<close>

lemma bestSoFar_0: "bestSoFar S cand 0 NegInf []"
  by (simp add: bestSoFar_def)

lemma bestSoFar_keep:
  assumes "bestSoFar S cand N bs bw" and "\<not> jgt (S N) bs"
  shows "bestSoFar S cand (Suc N) bs bw"
  using assms unfolding bestSoFar_def
  by (auto simp: less_Suc_eq)

lemma bestSoFar_update:
  assumes inv: "bestSoFar S cand N bs bw" and gt: "jgt (S N) bs"
  shows "bestSoFar S cand (Suc N) (S N) (cand N)"
proof -
  have prev: "\<not> jgt (S c') bs" if "c' < N" for c'
    using inv that unfolding bestSoFar_def by auto
  have 1: "jgt (S N) NegInf"
    using inv gt unfolding bestSoFar_def by (auto dest: jgt_trans)
  have 2: "\<not> jgt (S c') (S N)" if "c' < Suc N" for c'
  proof (cases "c' = N")
    case False
    with that have "c' < N" by simp
    with prev gt show ?thesis by (blast dest: jgt_trans)
  qed simp
  have 3: "\<not> jle (S N) (S c')" if "c' < N" for c'
    using prev [OF that] gt by (blast dest: jle_jgt_trans)
  show ?thesis
    unfolding bestSoFar_def using 1 2 3 by (intro disjI2 exI [of _ N]) auto
qed

lemma firstReturns_ok: "assets \<noteq> [] \<Longrightarrow> firstReturns assets = Inr (returns (hd assets))"
  by (cases assets) (simp_all add: firstReturns_def)

lemma metricsVsFirst_eq:
  "assets \<noteq> [] \<Longrightarrow>
     metricsVsFirst assets ws = calculatePortfolioMetrics assets ws (returns (hd assets))"
  by (simp add: metricsVsFirst_def firstReturns_ok)

lemma metricsVsFirst_ok:
  assumes "assets \<noteq> []" and "length ws \<le> length assets"
  shows "\<exists>m. metricsVsFirst assets ws = Inr m"
  using calculatePortfolioMetrics_ok [OF assms, of "returns (hd assets)"]
  by (auto simp: metricsVsFirst_eq assms(1))

lemma candidate_length [simp]: "length (candidate rnd n c) = n"
  by (simp add: candidate_def normalizedWeights_length)

lemma normalizedWeights_candidate:
  "normalizedWeights rnd n (c * n) = (candidate rnd n c, Suc c * n)"
  using normalizedWeights_counter [of rnd n "c * n"]
  by (simp add: candidate_def prod_eq_iff)

lemma optimizeStep_candidate:
  assumes ne: "assets \<noteq> []"
  shows "optimizeStep rnd assets it (bs, bw, c * length assets) =
           Inr (if jgt (candidateSharpe rnd assets c) bs
                then (candidateSharpe rnd assets c, candidate rnd (length assets) c,
                      Suc c * length assets)
                else (bs, bw, Suc c * length assets))"
proof -
  obtain m where m: "metricsVsFirst assets (candidate rnd (length assets) c) = Inr m"
    using metricsVsFirst_ok [OF ne, of "candidate rnd (length assets) c"] by auto
  show ?thesis
    unfolding optimizeStep_def prod.case normalizedWeights_candidate
    by (simp add: m candidateSharpe_def)
qed

lemma optimize_loop:
  assumes ne: "assets \<noteq> []"
  shows "\<exists>bs bw. forLoop [0..<N] (optimizeStep rnd assets) (NegInf, [], 0)
                   = Inr (bs, bw, N * length assets) \<and>
                 bestSoFar (candidateSharpe rnd assets) (candidate rnd (length assets)) N bs bw"
proof (induction N)
  case 0
  show ?case by (simp add: bestSoFar_0)
next
  case (Suc N)
  then obtain bs bw where
    loop: "forLoop [0..<N] (optimizeStep rnd assets) (NegInf, [], 0)
             = Inr (bs, bw, N * length assets)"
    and inv: "bestSoFar (candidateSharpe rnd assets) (candidate rnd (length assets)) N bs bw"
    by blast
  show ?case
  proof (cases "jgt (candidateSharpe rnd assets N) bs")
    case True
    with loop bestSoFar_update [OF inv True] show ?thesis
      by (simp add: forLoop_append optimizeStep_candidate [OF ne])
  next
    case False
    with loop bestSoFar_keep [OF inv False] show ?thesis
      by (simp add: forLoop_append optimizeStep_candidate [OF ne])
  qed
qed

lemma optimizePortfolio_result:
  assumes ne: "assets \<noteq> []"
  shows "\<exists>bs bw. bestSoFar (candidateSharpe rnd assets) (candidate rnd (length assets))
                    10000 bs bw \<and>
                 optimizePortfolio rnd assets = metricsVsFirst assets bw"
proof -
  from optimize_loop [OF ne, of 10000 rnd] obtain bs bw where
    "forLoop [0..<10000] (optimizeStep rnd assets) (NegInf, [], 0)
       = Inr (bs, bw, 10000 * length assets)"
    "bestSoFar (candidateSharpe rnd assets) (candidate rnd (length assets)) 10000 bs bw"
    by blast
  then show ?thesis by (auto simp: optimizePortfolio_def)
qed


lemma metricsVsFirst_weights:
  assumes "metricsVsFirst assets ws = Inr m"
  shows "weights m = ws"
proof -
  from assms have ne: "assets \<noteq> []"
    by (cases assets) (simp_all add: metricsVsFirst_def firstReturns_def)
  from assms have "calculatePortfolioMetrics assets ws (returns (hd assets)) = Inr m"
    by (simp add: metricsVsFirst_eq ne)
  moreover from this have "length ws \<le> length assets"
    using calculatePortfolioMetrics_fails_iff [of assets ws "returns (hd assets)"] ne by auto
  ultimately show ?thesis
    using calculatePortfolioMetrics_ok [OF ne, of ws "returns (hd assets)"] by auto
qed

lemma optimizePortfolio_cases:
  assumes ne: "assets \<noteq> []"
  shows "(\<exists>c<10000. jgt (candidateSharpe rnd assets c) NegInf \<and>
            (\<forall>c'<10000. \<not> jgt (candidateSharpe rnd assets c') (candidateSharpe rnd assets c)) \<and>
            (\<forall>c'<c. \<not> jle (candidateSharpe rnd assets c) (candidateSharpe rnd assets c')) \<and>
            optimizePortfolio rnd assets = metricsVsFirst assets (candidate rnd (length assets) c) \<and>
            (\<exists>m. optimizePortfolio rnd assets = Inr m \<and>
                 sharpeRatio m = candidateSharpe rnd assets c \<and>
                 weights m = candidate rnd (length assets) c)) \<or>
         ((\<forall>c<10000. \<not> jgt (candidateSharpe rnd assets c) NegInf) \<and>
          optimizePortfolio rnd assets = metricsVsFirst assets [] \<and>
          (\<exists>m. optimizePortfolio rnd assets = Inr m \<and> weights m = []))"
proof -
  let ?S = "candidateSharpe rnd assets"
  let ?cand = "candidate rnd (length assets)"
  from optimizePortfolio_result [OF ne, of rnd] obtain bs bw where
    inv: "bestSoFar ?S ?cand 10000 bs bw"
    and res: "optimizePortfolio rnd assets = metricsVsFirst assets bw"
    by blast
  from inv consider
    (none) "bw = []" "\<forall>c<10000. \<not> jgt (?S c) NegInf"
  | (some) c where "c < 10000" "bw = ?cand c" "jgt (?S c) NegInf"
      "\<forall>c'<10000. \<not> jgt (?S c') (?S c)" "\<forall>c'<c. \<not> jle (?S c) (?S c')"
    unfolding bestSoFar_def by blast
  then show ?thesis
  proof cases
    case none
    obtain m where m: "metricsVsFirst assets [] = Inr m"
      using metricsVsFirst_ok [OF ne, of "[]"] by auto
    with metricsVsFirst_weights [OF m] none res show ?thesis by auto
  next
    case some
    obtain m where m: "metricsVsFirst assets (?cand c) = Inr m"
      using metricsVsFirst_ok [OF ne, of "?cand c"] by auto
    have "sharpeRatio m = ?S c" by (simp add: candidateSharpe_def m)
    with metricsVsFirst_weights [OF m] m some res show ?thesis
      by (intro disjI1 exI [of _ c]) auto
  qed
qed

lemma candidate_constant_half: "candidate (constantStream (1 / 2)) (Suc 0) c = [Num 1]"
  by (simp add: candidate_def normalizedWeights_def constantStream_def)



text \<open>
  Claim C5, as amended. For a non-empty asset list and any random stream,
  \<open>optimizePortfolio\<close> evaluates 10000 candidates (it makes 10000 times the number of
  assets draws) and succeeds. If some candidate has a Sharpe ratio above \<open>-Infinity\<close>, the
  result is the metrics of a candidate whose Sharpe ratio no candidate exceeds and no
  earlier candidate reaches (a \<open>NaN\<close> ratio never compares greater, so such candidates are
  passed over). Otherwise the best weights are never set and the result is the metrics of
  the empty weight vector.
\<close>

theorem optimizePortfolio_best:
  assumes "assets \<noteq> []"
  shows "(\<exists>bs bw. forLoop [0..<10000] (optimizeStep rnd assets) (NegInf, [], 0)
                   = Inr (bs, bw, 10000 * length assets)) \<and>
        ((\<exists>c<10000. jgt (candidateSharpe rnd assets c) NegInf \<and>
            (\<forall>c'<10000. \<not> jgt (candidateSharpe rnd assets c') (candidateSharpe rnd assets c)) \<and>
            (\<forall>c'<c. \<not> jle (candidateSharpe rnd assets c) (candidateSharpe rnd assets c')) \<and>
            optimizePortfolio rnd assets = metricsVsFirst assets (candidate rnd (length assets) c) \<and>
            (\<exists>m. optimizePortfolio rnd assets = Inr m \<and>
                 sharpeRatio m = candidateSharpe rnd assets c \<and>
                 weights m = candidate rnd (length assets) c)) \<or>
         ((\<forall>c<10000. \<not> jgt (candidateSharpe rnd assets c) NegInf) \<and>
          optimizePortfolio rnd assets = metricsVsFirst assets [] \<and>
          (\<exists>m. optimizePortfolio rnd assets = Inr m \<and> weights m = [])))"
  using optimize_loop [OF assms, of 10000 rnd] optimizePortfolio_cases [OF assms, of rnd]
  by blast

lemma candidateSharpe_example:
  "\<exists>x. candidateSharpe (constantStream (1 / 2))
        [\<lparr>symbol = ''A'', name = ''A'', prices = map Num [100, 110, 132],
          returns = map Num [1 / 10, 2 / 10], weight = None\<rparr>] c = Num x"
  unfolding candidateSharpe_def
  by (simp add: candidate_constant_half metricsVsFirst_def firstReturns_def metrics_eval)

theorem optimizePortfolio_best_witness:
  "\<exists>m. optimizePortfolio (constantStream (1 / 2))
        [\<lparr>symbol = ''A'', name = ''A'', prices = map Num [100, 110, 132],
          returns = map Num [1 / 10, 2 / 10], weight = None\<rparr>] = Inr m \<and>
       weights m = [Num 1]"
proof -
  let ?A = "[\<lparr>symbol = ''A'', name = ''A'', prices = map Num [100, 110, 132],
          returns = map Num [1 / 10, 2 / 10], weight = None\<rparr>]"
  have ne: "?A \<noteq> []" by simp
  have "jgt (candidateSharpe (constantStream (1 / 2)) ?A 0) NegInf"
    using candidateSharpe_example [of 0] by (auto simp: jgt_def)
  then have some: "\<not> (\<forall>c<10000. \<not> jgt (candidateSharpe (constantStream (1 / 2)) ?A c) NegInf)"
    by (intro notI) (drule spec [of _ 0], simp)
  have cand: "candidate (constantStream (1 / 2)) (length ?A) c = [Num 1]" for c
    by (simp add: candidate_constant_half)
  from optimizePortfolio_best [OF ne, of "constantStream (1 / 2)", THEN conjunct2] some
  show ?thesis unfolding cand by blast
qed


text \<open>
  The claim as stated fails: for one asset with a single return every candidate has the
  Sharpe ratio \<open>NaN\<close>, and the result carries the empty weight vector, which is the
  weight vector of no candidate (every candidate is \<open>[1]\<close>).
\<close>

theorem optimizePortfolio_counterexample:
  "map_sum id weights
     (optimizePortfolio (constantStream (1 / 2))
        [\<lparr>symbol = ''A'', name = ''A'', prices = map Num [100, 110],
          returns = map Num [1 / 10], weight = None\<rparr>]) = Inr [] \<and>
   candidate (constantStream (1 / 2)) 1 0 = [Num 1]"
proof -
  let ?A = "[\<lparr>symbol = ''A'', name = ''A'', prices = map Num [100, 110],
          returns = map Num [1 / 10], weight = None\<rparr>]"
  have S: "candidateSharpe (constantStream (1 / 2)) ?A c = NaN" for c
    unfolding candidateSharpe_def
    by (simp add: candidate_constant_half metricsVsFirst_def firstReturns_def metrics_eval)
  have ne: "?A \<noteq> []" by simp
  have nan: "\<not> jgt NaN NegInf" by (simp add: jgt_def)
  from optimizePortfolio_cases [OF ne, of "constantStream (1 / 2)", unfolded S] nan
  have "\<exists>m. optimizePortfolio (constantStream (1 / 2)) ?A = Inr m \<and> weights m = []"
    by blast
  then show ?thesis by (auto simp: candidate_constant_half)
qed


section \<open>The efficient frontier\<close>

lemma frontierStep_candidate:
  assumes ne: "assets \<noteq> []"
  shows "frontierStep rnd assets target it (bv, bw, c * length assets) =
           Inr (if jlt (jabs (jsub (candidateReturn rnd assets c) target)) (Num (1 / 100))
                   \<and> jlt (candidateVolatility rnd assets c) bv
                then (candidateVolatility rnd assets c, candidate rnd (length assets) c,
                      Suc c * length assets)
                else (bv, bw, Suc c * length assets))"
proof -
  obtain m where m: "metricsVsFirst assets (candidate rnd (length assets) c) = Inr m"
    using metricsVsFirst_ok [OF ne, of "candidate rnd (length assets) c"] by auto
  show ?thesis
    unfolding frontierStep_def prod.case normalizedWeights_candidate
    by (simp add: m candidateReturn_def candidateVolatility_def)
qed

lemma searchState_accept:
  assumes "jlt (jabs (jsub (candidateReturn rnd assets (c0 + j)) target)) (Num (1 / 100))"
    and "jlt (candidateVolatility rnd assets (c0 + j)) bv"
  shows "searchState rnd assets target c0 (Suc j)
           (candidateVolatility rnd assets (c0 + j)) (candidate rnd (length assets) (c0 + j))"
proof -
  from assms have "accepts rnd assets target (c0 + j)"
    by (auto simp: accepts_def dest: jlt_PosInf)
  then show ?thesis
    unfolding searchState_def by (intro disjI2 exI [of _ j]) simp
qed

lemma searchState_reject:
  assumes inv: "searchState rnd assets target c0 j bv bw"
    and rej: "\<not> (jlt (jabs (jsub (candidateReturn rnd assets (c0 + j)) target)) (Num (1 / 100))
               \<and> jlt (candidateVolatility rnd assets (c0 + j)) bv)"
  shows "searchState rnd assets target c0 (Suc j) bv bw"
  using inv unfolding searchState_def
proof (elim disjE exE conjE)
  assume a: "bv = PosInf" "bw = []" "\<forall>j'<j. \<not> accepts rnd assets target (c0 + j')"
  with rej have "\<not> accepts rnd assets target (c0 + j)" by (simp add: accepts_def)
  with a have "\<forall>j'<Suc j. \<not> accepts rnd assets target (c0 + j')"
    by (simp add: less_Suc_eq)
  with a show "(bv = PosInf \<and> bw = [] \<and> (\<forall>j'<Suc j. \<not> accepts rnd assets target (c0 + j'))) \<or>
     (\<exists>j'<Suc j. accepts rnd assets target (c0 + j') \<and>
             bw = candidate rnd (length assets) (c0 + j'))"
    by blast
next
  fix j' assume "j' < j" "accepts rnd assets target (c0 + j')"
    "bw = candidate rnd (length assets) (c0 + j')"
  then show "(bv = PosInf \<and> bw = [] \<and> (\<forall>j'<Suc j. \<not> accepts rnd assets target (c0 + j'))) \<or>
     (\<exists>j'<Suc j. accepts rnd assets target (c0 + j') \<and>
             bw = candidate rnd (length assets) (c0 + j'))"
    by (intro disjI2 exI [of _ j']) simp
qed

lemma frontier_search_loop:
  assumes ne: "assets \<noteq> []"
  shows "\<exists>bv bw. forLoop [0..<J] (frontierStep rnd assets target)
                    (PosInf, [], c0 * length assets)
                   = Inr (bv, bw, (c0 + J) * length assets) \<and>
                 searchState rnd assets target c0 J bv bw"
proof (induction J)
  case 0
  show ?case by (simp add: searchState_def)
next
  case (Suc J)
  then obtain bv bw where
    loop: "forLoop [0..<J] (frontierStep rnd assets target) (PosInf, [], c0 * length assets)
             = Inr (bv, bw, (c0 + J) * length assets)"
    and inv: "searchState rnd assets target c0 J bv bw"
    by blast
  have next_counter: "Suc (c0 + J) * length assets = (c0 + Suc J) * length assets" by simp
  show ?case
  proof (cases "jlt (jabs (jsub (candidateReturn rnd assets (c0 + J)) target)) (Num (1 / 100))
               \<and> jlt (candidateVolatility rnd assets (c0 + J)) bv")
    case True
    then have "searchState rnd assets target c0 (Suc J)
           (candidateVolatility rnd assets (c0 + J)) (candidate rnd (length assets) (c0 + J))"
      using searchState_accept [of rnd assets c0 J target bv] by simp
    moreover have "frontierStep rnd assets target J (bv, bw, (c0 + J) * length assets)
        = Inr (candidateVolatility rnd assets (c0 + J), candidate rnd (length assets) (c0 + J),
               (c0 + Suc J) * length assets)"
      unfolding frontierStep_candidate [OF ne] next_counter by (subst if_P [OF True]) (rule refl)
    ultimately show ?thesis
      unfolding upt_Suc_append [OF le0] forLoop_append loop by simp
  next
    case False
    have "frontierStep rnd assets target J (bv, bw, (c0 + J) * length assets)
        = Inr (bv, bw, (c0 + Suc J) * length assets)"
      unfolding frontierStep_candidate [OF ne] next_counter by (subst if_not_P [OF False]) (rule refl)
    with searchState_reject [OF inv False] show ?thesis
      unfolding upt_Suc_append [OF le0] forLoop_append loop by simp
  qed
qed


lemma frontierPointStep_result:
  assumes ne: "assets \<noteq> []"
  shows "\<exists>pt. frontierPointStep rnd assets numPoints i (pts, i * 1000 * length assets)
                = Inr (pts @ pt, Suc i * 1000 * length assets) \<and>
              ((\<not> targetHasCandidate rnd assets numPoints i \<and> pt = []) \<or>
               (targetHasCandidate rnd assets numPoints i \<and>
                (\<exists>c. accepts rnd assets (targetReturn numPoints i) c \<and>
                     pt = [frontierPointOf assets (candidate rnd (length assets) c)])))"
proof -
  let ?t = "targetReturn numPoints i"
  let ?n = "length assets"
  from frontier_search_loop [OF ne, of 1000 rnd ?t "i * 1000"] obtain bv bw where
    loop: "forLoop [0..<1000] (frontierStep rnd assets ?t) (PosInf, [], i * 1000 * ?n)
             = Inr (bv, bw, (i * 1000 + 1000) * ?n)"
    and st: "searchState rnd assets ?t (i * 1000) 1000 bv bw"
    by blast
  have k: "(i * 1000 + 1000) * ?n = Suc i * 1000 * ?n" by simp
  from st consider
    (none) "bw = []" "\<forall>j<1000. \<not> accepts rnd assets ?t (i * 1000 + j)"
  | (some) j where "j < 1000" "accepts rnd assets ?t (i * 1000 + j)"
      "bw = candidate rnd ?n (i * 1000 + j)"
    unfolding searchState_def by blast
  then show ?thesis
  proof cases
    case none
    then have "\<not> targetHasCandidate rnd assets numPoints i"
      by (simp add: targetHasCandidate_def)
    moreover have "frontierPointStep rnd assets numPoints i (pts, i * 1000 * ?n)
                = Inr (pts @ [], Suc i * 1000 * ?n)"
      unfolding frontierPointStep_def prod.case loop sum.case k using none(1) by simp
    ultimately show ?thesis by blast
  next
    case some
    then have found: "targetHasCandidate rnd assets numPoints i"
      by (auto simp: targetHasCandidate_def)
    have pos: "0 < length bw" using some(3) ne by simp
    obtain m where m: "metricsVsFirst assets bw = Inr m"
      using metricsVsFirst_ok [OF ne, of bw] some(3) by auto
    have "frontierPointStep rnd assets numPoints i (pts, i * 1000 * ?n)
                = Inr (pts @ [frontierPointOf assets bw], Suc i * 1000 * ?n)"
      unfolding frontierPointStep_def prod.case loop sum.case k frontierPointOf_def m
      using pos by simp
    with found some show ?thesis by blast
  qed
qed

lemma frontier_outer_loop:
  assumes ne: "assets \<noteq> []"
  shows "\<exists>pts. forLoop [0..<I] (frontierPointStep rnd assets numPoints) ([], 0)
                 = Inr (pts, I * 1000 * length assets) \<and>
               length pts = length (filter (targetHasCandidate rnd assets numPoints) [0..<I]) \<and>
               (\<forall>p\<in>set pts. \<exists>c t. accepts rnd assets t c \<and>
                    p = frontierPointOf assets (candidate rnd (length assets) c))"
proof (induction I)
  case 0
  show ?case by simp
next
  case (Suc I)
  then obtain pts where
    loop: "forLoop [0..<I] (frontierPointStep rnd assets numPoints) ([], 0)
             = Inr (pts, I * 1000 * length assets)"
    and len: "length pts = length (filter (targetHasCandidate rnd assets numPoints) [0..<I])"
    and good: "\<forall>p\<in>set pts. \<exists>c t. accepts rnd assets t c \<and>
                    p = frontierPointOf assets (candidate rnd (length assets) c)"
    by blast
  from frontierPointStep_result [OF ne, of rnd numPoints I pts] obtain pt where
    step: "frontierPointStep rnd assets numPoints I (pts, I * 1000 * length assets)
                = Inr (pts @ pt, Suc I * 1000 * length assets)"
    and pt: "(\<not> targetHasCandidate rnd assets numPoints I \<and> pt = []) \<or>
               (targetHasCandidate rnd assets numPoints I \<and>
                (\<exists>c. accepts rnd assets (targetReturn numPoints I) c \<and>
                     pt = [frontierPointOf assets (candidate rnd (length assets) c)]))"
    by blast
  have run: "forLoop [0..<Suc I] (frontierPointStep rnd assets numPoints) ([], 0)
                 = Inr (pts @ pt, Suc I * 1000 * length assets)"
    unfolding upt_Suc_append [OF le0] forLoop_append loop using step by simp
  from pt len have len': "length (pts @ pt)
      = length (filter (targetHasCandidate rnd assets numPoints) [0..<Suc I])"
    by auto
  from pt good have "\<forall>p\<in>set (pts @ pt). \<exists>c t. accepts rnd assets t c \<and>
                    p = frontierPointOf assets (candidate rnd (length assets) c)"
    by auto
  with run len' show ?case by blast
qed


lemma expectedReturnOf_NaN:
  assumes "0 < n"
  shows "expectedReturnOf assets (replicate n NaN) = NaN"
proof -
  have "[0..<n] = 0 # [1..<n]" using assms by (simp add: upt_conv_Cons)
  then show ?thesis
    unfolding expectedReturnOf_def using assms
    by (simp add: rd_def foldl_jadd_NaN)
qed

lemma candidate_metrics:
  assumes ne: "assets \<noteq> []"
  shows "\<exists>pv. candidateReturn rnd assets c
                 = expectedReturnOf assets (candidate rnd (length assets) c) \<and>
              candidateVolatility rnd assets c = jsqrt pv"
proof -
  from calculatePortfolioMetrics_ok [OF ne, of "candidate rnd (length assets) c" "returns (hd assets)"]
  show ?thesis
    unfolding candidateReturn_def candidateVolatility_def metricsVsFirst_eq [OF ne]
    by auto
qed

lemma accepts_volatility:
  assumes ne: "assets \<noteq> []" and acc: "accepts rnd assets t c"
  shows "\<exists>v. candidateVolatility rnd assets c = Num v"
proof -
  from candidate_metrics [OF ne, of rnd c] obtain pv where
    "candidateVolatility rnd assets c = jsqrt pv" by blast
  moreover from acc have "jlt (candidateVolatility rnd assets c) PosInf"
    by (simp add: accepts_def)
  ultimately show ?thesis by (cases pv) (auto split: if_splits)
qed

lemma accepts_weights:
  assumes ne: "assets \<noteq> []" and r: "\<forall>i. 0 \<le> rnd i \<and> rnd i < 1"
    and acc: "accepts rnd assets t c"
  shows "sumJs (candidate rnd (length assets) c) = Num 1"
proof -
  let ?n = "length assets"
  have n: "0 < ?n" using ne by simp
  have "(\<Sum>i<?n. rnd (c * ?n + i)) \<noteq> 0"
  proof
    assume "(\<Sum>i<?n. rnd (c * ?n + i)) = 0"
    then have "candidate rnd ?n c = replicate ?n NaN"
      unfolding candidate_def using r by (intro normalizedWeights_zero_sum) auto
    then have "candidateReturn rnd assets c = NaN"
      using candidate_metrics [OF ne, of rnd c] expectedReturnOf_NaN [OF n] by simp
    with acc show False by (simp add: accepts_def jsub_def)
  qed
  moreover have "(\<Sum>i<?n. rnd (c * ?n + i)) = 0 \<longleftrightarrow> (\<forall>i\<in>{..<?n}. rnd (c * ?n + i) = 0)"
    using r by (intro sum_nonneg_eq_0_iff) auto
  ultimately have "\<exists>i<?n. rnd (c * ?n + i) \<noteq> 0" by auto
  from normalizedWeights_simplex [OF r this] show ?thesis
    by (auto simp: candidate_def)
qed

lemma frontierPointOf_candidate:
  assumes ne: "assets \<noteq> []"
  shows "fp_volatility (frontierPointOf assets (candidate rnd (length assets) c))
           = candidateVolatility rnd assets c"
    and "fp_weights (frontierPointOf assets ws) = ws"
  by (simp_all add: frontierPointOf_def candidateVolatility_def split: sum.splits)

lemma insertBy_set: "set (insertBy cmp x xs) = insert x (set xs)"
  by (induction xs) auto

lemma insertBy_length: "length (insertBy cmp x xs) = Suc (length xs)"
  by (induction xs) auto

lemma sortBy_set: "set (sortBy cmp xs) = set xs"
  by (induction xs) (simp_all add: sortBy_def insertBy_set)

lemma sortBy_length: "length (sortBy cmp xs) = length xs"
  by (induction xs) (simp_all add: sortBy_def insertBy_length)

lemma insertBy_sorted:
  assumes "\<forall>p\<in>set (x # xs). \<exists>v. fp_volatility p = Num v"
    and "sorted (map volatilityValue xs)"
  shows "sorted (map volatilityValue (insertBy compareVolatility x xs))"
  using assms
proof (induction xs)
  case Nil
  show ?case by simp
next
  case (Cons y ys)
  from Cons.prems(1) obtain a b where ab: "fp_volatility x = Num a" "fp_volatility y = Num b"
    by auto
  have gt: "jgt (compareVolatility x y) (Num 0) \<longleftrightarrow> b < a"
    by (simp add: compareVolatility_def ab jsub_def jgt_def)
  have val: "volatilityValue x = a" "volatilityValue y = b"
    by (simp_all add: volatilityValue_def ab)
  show ?case
  proof (cases "b < a")
    case True
    from Cons.prems have "sorted (map volatilityValue (insertBy compareVolatility x ys))"
      by (intro Cons.IH) auto
    moreover have "\<forall>z\<in>set (insertBy compareVolatility x ys). b \<le> volatilityValue z"
      using Cons.prems(2) True val by (auto simp: insertBy_set)
    ultimately show ?thesis using True gt val by simp
  next
    case False
    with Cons.prems(2) gt val show ?thesis by auto
  qed
qed

lemma sortBy_sorted:
  assumes "\<forall>p\<in>set xs. \<exists>v. fp_volatility p = Num v"
  shows "sorted (map volatilityValue (sortBy compareVolatility xs))"
  using assms
proof (induction xs)
  case Nil
  show ?case by (simp add: sortBy_def)
next
  case (Cons x xs)
  then have "sorted (map volatilityValue (sortBy compareVolatility xs))" by simp
  moreover have "\<forall>p\<in>set (x # sortBy compareVolatility xs). \<exists>v. fp_volatility p = Num v"
    using Cons.prems by (simp add: sortBy_set)
  ultimately have "sorted (map volatilityValue
      (insertBy compareVolatility x (sortBy compareVolatility xs)))"
    by (intro insertBy_sorted)
  then show ?case by (simp add: sortBy_def)
qed

lemma volatilities_Num:
  assumes "\<forall>p\<in>set xs. \<exists>v. fp_volatility p = Num v"
  shows "map fp_volatility xs = map Num (map volatilityValue xs)"
  using assms by (induction xs) (auto simp: volatilityValue_def)


lemma generateEfficientFrontier_result:
  assumes ne: "assets \<noteq> []"
  shows "\<exists>pts. generateEfficientFrontier rnd assets numPoints
                 = Inr (sortBy compareVolatility pts) \<and>
               length pts = length (filter (targetHasCandidate rnd assets numPoints)
                                      [0..<nat numPoints]) \<and>
               (\<forall>p\<in>set pts. \<exists>c t. accepts rnd assets t c \<and>
                    p = frontierPointOf assets (candidate rnd (length assets) c))"
proof -
  from frontier_outer_loop [OF ne, of "nat numPoints" rnd numPoints] obtain pts where
    "forLoop [0..<nat numPoints] (frontierPointStep rnd assets numPoints) ([], 0)
                 = Inr (pts, nat numPoints * 1000 * length assets)"
    "length pts = length (filter (targetHasCandidate rnd assets numPoints) [0..<nat numPoints])"
    "\<forall>p\<in>set pts. \<exists>c t. accepts rnd assets t c \<and>
                    p = frontierPointOf assets (candidate rnd (length assets) c)"
    by blast
  then show ?thesis
    unfolding generateEfficientFrontier_def by (intro exI [of _ pts]) simp
qed

lemma generateEfficientFrontier_sorted_lemma:
  assumes ne: "assets \<noteq> []" and r: "\<forall>i. 0 \<le> rnd i \<and> rnd i < 1"
  shows "\<exists>pts. generateEfficientFrontier rnd assets numPoints = Inr pts \<and>
      (\<exists>vs. map fp_volatility pts = map Num vs \<and> sorted vs) \<and>
      (\<forall>p\<in>set pts. sumJs (fp_weights p) = Num 1) \<and>
      length pts = length (filter (targetHasCandidate rnd assets numPoints) [0..<nat numPoints]) \<and>
      length pts \<le> nat numPoints"
proof -
  from generateEfficientFrontier_result [OF ne, of rnd numPoints] obtain pts0 where
    res: "generateEfficientFrontier rnd assets numPoints = Inr (sortBy compareVolatility pts0)"
    and len: "length pts0 = length (filter (targetHasCandidate rnd assets numPoints)
                                      [0..<nat numPoints])"
    and acc: "\<forall>p\<in>set pts0. \<exists>c t. accepts rnd assets t c \<and>
                    p = frontierPointOf assets (candidate rnd (length assets) c)"
    by blast
  let ?pts = "sortBy compareVolatility pts0"
  have vol: "\<forall>p\<in>set pts0. \<exists>v. fp_volatility p = Num v"
  proof
    fix p assume "p \<in> set pts0"
    with acc obtain c t where c: "accepts rnd assets t c"
        "p = frontierPointOf assets (candidate rnd (length assets) c)"
      by blast
    from accepts_volatility [OF ne c(1)] show "\<exists>v. fp_volatility p = Num v"
      unfolding c(2) frontierPointOf_candidate(1) [OF ne] .
  qed
  have w: "\<forall>p\<in>set pts0. sumJs (fp_weights p) = Num 1"
  proof
    fix p assume "p \<in> set pts0"
    with acc obtain c t where c: "accepts rnd assets t c"
        "p = frontierPointOf assets (candidate rnd (length assets) c)"
      by blast
    from accepts_weights [OF ne r c(1)] show "sumJs (fp_weights p) = Num 1"
      unfolding c(2) by (simp add: frontierPointOf_candidate(2) [OF ne])
  qed
  have "\<forall>p\<in>set ?pts. \<exists>v. fp_volatility p = Num v" using vol by (simp add: sortBy_set)
  then have "map fp_volatility ?pts = map Num (map volatilityValue ?pts)"
    by (rule volatilities_Num)
  moreover have "sorted (map volatilityValue ?pts)" using vol by (rule sortBy_sorted)
  ultimately have 1: "\<exists>vs. map fp_volatility ?pts = map Num vs \<and> sorted vs" by blast
  have 2: "\<forall>p\<in>set ?pts. sumJs (fp_weights p) = Num 1" using w by (simp add: sortBy_set)
  have 3: "length ?pts = length (filter (targetHasCandidate rnd assets numPoints)
                                      [0..<nat numPoints])"
    using len by (simp add: sortBy_length)
  have "length (filter (targetHasCandidate rnd assets numPoints) [0..<nat numPoints])
          \<le> length [0..<nat numPoints]"
    by (rule length_filter_le)
  with 3 have 4: "length ?pts \<le> nat numPoints" by simp
  from res 1 2 3 4 show ?thesis by blast
qed

lemma targetHasCandidate_within:
  assumes "\<forall>j<1000. \<not> jlt (jabs (jsub (candidateReturn rnd assets (i * 1000 + j))
                                    (targetReturn numPoints i))) (Num (1 / 100))"
  shows "\<not> targetHasCandidate rnd assets numPoints i"
  using assms by (auto simp: targetHasCandidate_def accepts_def)

lemma targetReturn_one: "targetReturn 1 0 = NaN"
  by (simp add: targetReturn_def infOfSign_def)

lemma targetReturn_sweep:
  assumes "2 \<le> numPoints"
  shows "targetReturn numPoints i
           = Num (5 / 100 + real i / (real_of_int numPoints - 1) * (25 / 100))"
  using assms by (simp add: targetReturn_def)

lemma generateEfficientFrontier_few_points:
  assumes "numPoints \<le> 1" and "assets \<noteq> [] \<or> numPoints \<le> 0"
  shows "generateEfficientFrontier rnd assets numPoints = Inr []"
proof (cases "numPoints \<le> 0")
  case True
  then show ?thesis by (simp add: generateEfficientFrontier_def sortBy_def)
next
  case False
  with assms have one: "numPoints = 1" and ne: "assets \<noteq> []" by auto
  have "\<not> targetHasCandidate rnd assets 1 0"
    by (rule targetHasCandidate_within) (simp add: targetReturn_one)
  with generateEfficientFrontier_result [OF ne, of rnd 1] show ?thesis
    unfolding one by (auto simp: sortBy_def)
qed

lemma forLoop_first_fails:
  assumes "i < j" and "body i s = Inl e"
  shows "forLoop [i..<j] body s = Inl e"
  using assms by (simp add: upt_conv_Cons)

lemma frontier_fails_on_no_assets:
  assumes "0 < numPoints"
  shows "generateEfficientFrontier rnd [] numPoints = Inl TypeError"
proof -
  have m: "metricsVsFirst [] ws = Inl TypeError" for ws
    by (simp add: metricsVsFirst_def firstReturns_def)
  have inner: "forLoop [0..<1000] (frontierStep rnd [] t) (PosInf, [], k) = Inl TypeError"
    for t k
    by (rule forLoop_first_fails) (simp_all add: frontierStep_def m split: prod.splits)
  have "forLoop [0..<nat numPoints] (frontierPointStep rnd [] numPoints) ([], 0)
          = Inl TypeError"
    by (rule forLoop_first_fails) (use assms in \<open>simp_all add: frontierPointStep_def inner\<close>)
  then show ?thesis
    by (simp add: generateEfficientFrontier_def)
qed


text \<open>
  Claim C7, as amended. For a non-empty asset list, draws in \<open>[0, 1)\<close> and any number of
  points, \<open>generateEfficientFrontier\<close> succeeds; the volatilities of the returned points
  are finite and ascending; the weights of every returned point sum to 1; and there is one
  point for each target that has an accepted candidate, so a target none of whose 1000
  candidates has an expected return within 0.01 of it contributes no point and the result
  has at most \<open>numPoints\<close> points.
\<close>

theorem generateEfficientFrontier_sorted:
  assumes "assets \<noteq> []" and "\<forall>i. 0 \<le> rnd i \<and> rnd i < 1"
  shows "\<exists>pts. generateEfficientFrontier rnd assets numPoints = Inr pts \<and>
      (\<exists>vs. map fp_volatility pts = map Num vs \<and> sorted vs) \<and>
      (\<forall>p\<in>set pts. sumJs (fp_weights p) = Num 1) \<and>
      length pts = length (filter (targetHasCandidate rnd assets numPoints) [0..<nat numPoints]) \<and>
      length pts \<le> nat numPoints \<and>
      (\<forall>i. (\<forall>j<1000. \<not> jlt (jabs (jsub (candidateReturn rnd assets (i * 1000 + j))
                                       (targetReturn numPoints i))) (Num (1 / 100)))
            \<longrightarrow> \<not> targetHasCandidate rnd assets numPoints i)"
  using generateEfficientFrontier_sorted_lemma [OF assms, of numPoints]
    targetHasCandidate_within [of rnd assets _ numPoints]
  by blast

lemma candidate_example:
  "candidateReturn (constantStream (1 / 2)) [\<lparr>symbol = ''A'', name = ''A'', prices = map Num [10000, 10001, 100040003 / 10000],
          returns = map Num [1 / 10000, 3 / 10000], weight = None\<rparr>] c = Num (63 / 1250)"
  "\<exists>v. candidateVolatility (constantStream (1 / 2)) [\<lparr>symbol = ''A'', name = ''A'', prices = map Num [10000, 10001, 100040003 / 10000],
          returns = map Num [1 / 10000, 3 / 10000], weight = None\<rparr>] c = Num v"
  unfolding candidateReturn_def candidateVolatility_def
  by (simp_all add: candidate_constant_half metricsVsFirst_def firstReturns_def metrics_eval)

theorem generateEfficientFrontier_sorted_witness:
  "\<exists>pts. generateEfficientFrontier (constantStream (1 / 2)) [\<lparr>symbol = ''A'', name = ''A'', prices = map Num [10000, 10001, 100040003 / 10000],
          returns = map Num [1 / 10000, 3 / 10000], weight = None\<rparr>] 2 = Inr pts \<and>
      length pts = 1 \<and>
      (\<exists>vs. map fp_volatility pts = map Num vs \<and> sorted vs) \<and>
      (\<forall>p\<in>set pts. sumJs (fp_weights p) = Num 1)"
proof -
  let ?A = "[\<lparr>symbol = ''A'', name = ''A'', prices = map Num [10000, 10001, 100040003 / 10000],
          returns = map Num [1 / 10000, 3 / 10000], weight = None\<rparr>]"
  let ?r = "constantStream (1 / 2)"
  have ne: "?A \<noteq> []" by simp
  have r: "\<forall>i. 0 \<le> ?r i \<and> ?r i < 1" by (simp add: constantStream_def)
  have acc: "accepts ?r ?A t c \<longleftrightarrow> jlt (jabs (jsub (Num (63 / 1250)) t)) (Num (1 / 100))"
    for t c
    unfolding accepts_def candidate_example(1) using candidate_example(2) [of c] by auto
  have t0: "targetReturn 2 0 = Num (5 / 100)" and t1: "targetReturn 2 1 = Num (30 / 100)"
    by (simp_all add: targetReturn_def)
  have h0: "targetHasCandidate ?r ?A 2 0"
    unfolding targetHasCandidate_def acc t0 by (intro exI [of _ 0]) (simp add: jsub_def)
  have h1: "\<not> targetHasCandidate ?r ?A 2 1"
    unfolding targetHasCandidate_def acc t1 by (simp add: jsub_def)
  have idx: "[0..<nat 2] = [0, 1]" by (simp add: upt_conv_Cons)
  have "length (filter (targetHasCandidate ?r ?A 2) [0..<nat 2]) = 1"
    unfolding idx using h0 h1 by simp
  with generateEfficientFrontier_sorted [OF ne r, of 2] show ?thesis by auto
qed

text \<open>
  The claim as stated fails for the empty asset list: the first candidate is evaluated
  against \<open>assets[0].returns\<close>, which throws.
\<close>

theorem generateEfficientFrontier_counterexample:
  "generateEfficientFrontier (constantStream (1 / 2)) [] 2 = Inl TypeError"
  by (rule frontier_fails_on_no_assets) simp

text \<open>
  Claim C10, as amended. With \<open>numPoints\<close> at most 1, \<open>generateEfficientFrontier\<close> returns
  the empty sequence when the asset list is not empty or \<open>numPoints\<close> is at most 0: the
  only target of \<open>numPoints = 1\<close> is \<open>0.05 + (0 / 0) * 0.25\<close>, which is \<open>NaN\<close>, and no
  candidate is within tolerance of it. From 2 points on the targets are
  \<open>0.05 + i / (numPoints - 1) * 0.25\<close>, from 0.05 at the first to 0.30 at the last.
\<close>

theorem generateEfficientFrontier_single_point:
  "(numPoints \<le> 1 \<and> (assets \<noteq> [] \<or> numPoints \<le> 0) \<longrightarrow>
      generateEfficientFrontier rnd assets numPoints = Inr []) \<and>
   targetReturn 1 0 = NaN \<and>
   (2 \<le> numPoints \<longrightarrow>
      (\<forall>i. targetReturn numPoints i
             = Num (5 / 100 + real i / (real_of_int numPoints - 1) * (25 / 100))) \<and>
      targetReturn numPoints 0 = Num (5 / 100) \<and>
      targetReturn numPoints (nat (numPoints - 1)) = Num (30 / 100))"
proof (intro conjI impI allI)
  assume "numPoints \<le> 1 \<and> (assets \<noteq> [] \<or> numPoints \<le> 0)"
  then show "generateEfficientFrontier rnd assets numPoints = Inr []"
    by (intro generateEfficientFrontier_few_points) simp_all
next
  show "targetReturn 1 0 = NaN" by (rule targetReturn_one)
next
  fix i assume "2 \<le> numPoints"
  then show "targetReturn numPoints i
             = Num (5 / 100 + real i / (real_of_int numPoints - 1) * (25 / 100))"
    by (rule targetReturn_sweep)
next
  assume "2 \<le> numPoints"
  then show "targetReturn numPoints 0 = Num (5 / 100)"
    by (simp add: targetReturn_sweep)
next
  assume n: "2 \<le> numPoints"
  then have "real (nat (numPoints - 1)) = real_of_int numPoints - 1" by simp
  with n show "targetReturn numPoints (nat (numPoints - 1)) = Num (30 / 100)"
    by (simp add: targetReturn_sweep)
qed

theorem generateEfficientFrontier_single_point_witness:
  "generateEfficientFrontier (constantStream (1 / 2)) [\<lparr>symbol = ''A'', name = ''A'', prices = map Num [100, 110, 132],
          returns = map Num [1 / 10, 2 / 10], weight = None\<rparr>] 1 = Inr [] \<and>
   targetReturn 3 1 = Num (35 / 200) \<and> targetReturn 3 2 = Num (30 / 100)"
proof -
  have h: "(1 :: int) \<le> 1 \<and> ([\<lparr>symbol = ''A'', name = ''A'', prices = map Num [100, 110, 132],
          returns = map Num [1 / 10, 2 / 10], weight = None\<rparr>] \<noteq> [] \<or> (1 :: int) \<le> 0)" by simp
  note t = generateEfficientFrontier_single_point [of 1 "[\<lparr>symbol = ''A'', name = ''A'', prices = map Num [100, 110, 132],
          returns = map Num [1 / 10, 2 / 10], weight = None\<rparr>]" "constantStream (1 / 2)"]
  note u = generateEfficientFrontier_single_point [of 3 "[]" "constantStream (1 / 2)"]
  from t h have 1: "generateEfficientFrontier (constantStream (1 / 2)) [\<lparr>symbol = ''A'', name = ''A'', prices = map Num [100, 110, 132],
          returns = map Num [1 / 10, 2 / 10], weight = None\<rparr>] 1 = Inr []"
    by blast
  have "(2 :: int) \<le> 3" by simp
  with u have "(\<forall>i. targetReturn 3 i
             = Num (5 / 100 + real i / (real_of_int 3 - 1) * (25 / 100))) \<and>
      targetReturn 3 (nat (3 - 1)) = Num (30 / 100)"
    by blast
  then have "targetReturn 3 1 = Num (35 / 200) \<and> targetReturn 3 2 = Num (30 / 100)"
    by simp
  with 1 show ?thesis by blast
qed

text \<open>
  The claim as stated fails for the empty asset list and \<open>numPoints = 1\<close>: the call throws
  instead of returning the empty sequence.
\<close>

theorem generateEfficientFrontier_single_point_counterexample:
  "generateEfficientFrontier (constantStream (1 / 2)) [] 1 = Inl TypeError"
  by (rule frontier_fails_on_no_assets) simp

section \<open>The benchmark series\<close>




















end
